theory Spec2Isabelle
  imports Complex_Main
begin

section \<open>JavaScript numbers\<close>

text \<open>
  A JavaScript \<^verbatim>\<open>number\<close> is an IEEE-754 double. The three special values the
  optimizer's control flow depends on (\<^verbatim>\<open>NaN\<close>, \<^verbatim>\<open>Infinity\<close>, \<^verbatim>\<open>-Infinity\<close>) are
  constructors of their own; a finite double is idealised as a real number. The
  operations below follow the IEEE rules for the special values (\<^verbatim>\<open>NaN\<close> is
  contagious, every comparison with \<^verbatim>\<open>NaN\<close> is false, \<^verbatim>\<open>Infinity - Infinity\<close>,
  \<^verbatim>\<open>0 * Infinity\<close> and \<^verbatim>\<open>0 / 0\<close> are \<^verbatim>\<open>NaN\<close>, a non-zero number divided by zero is
  an infinity) and are exact on finite values: rounding, overflow of finite values and
  the sign of zero are not modelled (zero is the positive zero).
\<close>

datatype jsnum = NaN | NegInf | Fin real | PosInf

fun js_neg :: "jsnum \<Rightarrow> jsnum" where
  "js_neg NaN = NaN"
| "js_neg NegInf = PosInf"
| "js_neg PosInf = NegInf"
| "js_neg (Fin a) = Fin (- a)"

fun js_add :: "jsnum \<Rightarrow> jsnum \<Rightarrow> jsnum" where
  "js_add (Fin a) (Fin b) = Fin (a + b)"
| "js_add (Fin a) y = y"
| "js_add x (Fin b) = x"
| "js_add PosInf PosInf = PosInf"
| "js_add NegInf NegInf = NegInf"
| "js_add x y = NaN"

definition js_sub :: "jsnum \<Rightarrow> jsnum \<Rightarrow> jsnum" where
  "js_sub x y = js_add x (js_neg y)"

text \<open>The sign of an infinity times or divided by a finite factor.\<close>

definition signed_inf :: "bool \<Rightarrow> jsnum" where
  "signed_inf positive = (if positive then PosInf else NegInf)"

fun js_mul :: "jsnum \<Rightarrow> jsnum \<Rightarrow> jsnum" where
  "js_mul (Fin a) (Fin b) = Fin (a * b)"
| "js_mul NaN y = NaN"
| "js_mul x NaN = NaN"
| "js_mul (Fin a) PosInf = (if a = 0 then NaN else signed_inf (0 < a))"
| "js_mul (Fin a) NegInf = (if a = 0 then NaN else signed_inf (a < 0))"
| "js_mul PosInf (Fin b) = (if b = 0 then NaN else signed_inf (0 < b))"
| "js_mul NegInf (Fin b) = (if b = 0 then NaN else signed_inf (b < 0))"
| "js_mul PosInf PosInf = PosInf"
| "js_mul NegInf NegInf = PosInf"
| "js_mul PosInf NegInf = NegInf"
| "js_mul NegInf PosInf = NegInf"

fun js_div :: "jsnum \<Rightarrow> jsnum \<Rightarrow> jsnum" where
  "js_div (Fin a) (Fin b) =
     (if b = 0 then (if a = 0 then NaN else signed_inf (0 < a)) else Fin (a / b))"
| "js_div NaN y = NaN"
| "js_div x NaN = NaN"
| "js_div (Fin a) y = Fin 0"
| "js_div PosInf (Fin b) = signed_inf (0 \<le> b)"
| "js_div NegInf (Fin b) = signed_inf (b < 0)"
| "js_div x y = NaN"

text \<open>\<^verbatim>\<open>x < y\<close> and \<^verbatim>\<open>x > y\<close>: false as soon as one side is \<^verbatim>\<open>NaN\<close>.\<close>

fun js_lt :: "jsnum \<Rightarrow> jsnum \<Rightarrow> bool" where
  "js_lt NaN y = False"
| "js_lt x NaN = False"
| "js_lt x NegInf = False"
| "js_lt PosInf y = False"
| "js_lt NegInf y = True"
| "js_lt (Fin a) PosInf = True"
| "js_lt (Fin a) (Fin b) = (a < b)"

definition js_gt :: "jsnum \<Rightarrow> jsnum \<Rightarrow> bool" where
  "js_gt x y = js_lt y x"

text \<open>\<^verbatim>\<open>Math.min\<close>, \<^verbatim>\<open>Math.max\<close>, \<^verbatim>\<open>Math.abs\<close>, \<^verbatim>\<open>Math.sqrt\<close>, \<^verbatim>\<open>Math.cos\<close>, \<^verbatim>\<open>Math.sin\<close>.\<close>

definition js_min :: "jsnum \<Rightarrow> jsnum \<Rightarrow> jsnum" where
  "js_min x y = (if x = NaN \<or> y = NaN then NaN else if js_lt y x then y else x)"

definition js_max :: "jsnum \<Rightarrow> jsnum \<Rightarrow> jsnum" where
  "js_max x y = (if x = NaN \<or> y = NaN then NaN else if js_lt x y then y else x)"

fun js_abs :: "jsnum \<Rightarrow> jsnum" where
  "js_abs NaN = NaN"
| "js_abs (Fin a) = Fin \<bar>a\<bar>"
| "js_abs x = PosInf"

fun js_sqrt :: "jsnum \<Rightarrow> jsnum" where
  "js_sqrt (Fin a) = (if a < 0 then NaN else Fin (sqrt a))"
| "js_sqrt PosInf = PosInf"
| "js_sqrt x = NaN"

fun js_cos :: "jsnum \<Rightarrow> jsnum" where
  "js_cos (Fin a) = Fin (cos a)"
| "js_cos x = NaN"

fun js_sin :: "jsnum \<Rightarrow> jsnum" where
  "js_sin (Fin a) = Fin (sin a)"
| "js_sin x = NaN"

text \<open>
  The remainder operator \<^verbatim>\<open>%\<close>: the result has the sign of the dividend (the quotient
  is truncated towards zero).
\<close>

definition trunc :: "real \<Rightarrow> int" where
  "trunc x = (if 0 \<le> x then \<lfloor>x\<rfloor> else \<lceil>x\<rceil>)"

fun js_mod :: "jsnum \<Rightarrow> jsnum \<Rightarrow> jsnum" where
  "js_mod (Fin a) (Fin b) = (if b = 0 then NaN else Fin (a - b * of_int (trunc (a / b))))"
| "js_mod (Fin a) PosInf = Fin a"
| "js_mod (Fin a) NegInf = Fin a"
| "js_mod x y = NaN"

text \<open>\<^verbatim>\<open>x ** 2\<close>.\<close>

definition js_sq :: "jsnum \<Rightarrow> jsnum" where
  "js_sq x = js_mul x x"

text \<open>
  Reading \<^verbatim>\<open>xs[i]\<close> where the value is then used as an operand of arithmetic: out of
  range the read gives \<^verbatim>\<open>undefined\<close>, which arithmetic converts to \<^verbatim>\<open>NaN\<close>.
\<close>

definition get_num :: "jsnum list \<Rightarrow> nat \<Rightarrow> jsnum" where
  "get_num xs i = (if i < length xs then xs ! i else NaN)"

text \<open>The exceptions the optimizer's code can raise: both are raised by the runtime.\<close>

datatype error = RangeError | TypeError

section \<open>Types\<close>

record Complex =
  real_part :: jsnum
  imaginary :: jsnum

record QuantumState =
  amplitude :: Complex
  phase :: jsnum

text \<open>
  The configuration object as the caller passes it: a field may be absent
  (\<^verbatim>\<open>undefined\<close>), which is \<open>None\<close>.
\<close>

record QuantumConfigArg =
  arg_particles :: "jsnum option"
  arg_iterations :: "jsnum option"
  arg_convergenceThreshold :: "jsnum option"

record QuantumConfig =
  cfg_particles :: jsnum
  cfg_iterations :: jsnum
  cfg_convergenceThreshold :: jsnum

record ParticleState =
  position :: "jsnum list"
  velocity :: "jsnum list"
  bestPosition :: "jsnum list"
  bestFitness :: jsnum

record Metrics =
  sharpeRatio :: jsnum
  metrics_volatility :: jsnum
  metrics_maxDrawdown :: jsnum

record OptimizationResult =
  allocation :: "jsnum list"
  expectedReturn :: jsnum
  confidence :: jsnum
  metrics :: Metrics

record Asset =
  symbol :: string
  price :: jsnum
  volume :: jsnum
  asset_volatility :: jsnum

record RiskBudget =
  maxVolatility :: jsnum
  maxDrawdown :: jsnum
  minSharpeRatio :: jsnum

record OptimizationConstraints =
  riskTolerance :: jsnum
  minAllocation :: jsnum
  maxAllocation :: jsnum
  minPositions :: jsnum
  maxPositions :: jsnum
  sectorDiversification :: "(string \<times> jsnum \<times> jsnum) list"
  riskBudget :: RiskBudget

datatype RegimeType = bull | bear | sideways | volatile

record RegimeMetrics =
  trendStrength :: jsnum
  regime_volatility :: jsnum
  momentum :: jsnum

record MarketRegime =
  regime_type :: RegimeType
  regime_confidence :: jsnum
  regime_metrics :: RegimeMetrics

record HistoricalData =
  returns :: "jsnum list list"
  volatility :: "jsnum list"
  correlation :: "jsnum list list"

record OptimizationContext =
  assets :: "Asset list"
  constraints :: OptimizationConstraints
  marketRegime :: MarketRegime
  historicalData :: HistoricalData

section \<open>The optimizer object and the store of a call\<close>

text \<open>The fields of a \<^verbatim>\<open>QuantumOptimizer\<close> instance.\<close>

record QuantumOptimizer =
  config :: QuantumConfig
  particles :: "ParticleState list"
  quantumStates :: "QuantumState list list"
  globalBestPosition :: "jsnum list"
  globalBestFitness :: jsnum

text \<open>
  What a call of \<^verbatim>\<open>optimize\<close> can reach: the optimizer instance itself (the fields
  above), the context object its argument refers to, and the source of randomness,
  of which \<open>draws\<close> counts the values consumed so far. \<^verbatim>\<open>Math.random()\<close> is a
  stream \<open>rnd\<close> of reals fixed beforehand; its \<open>k\<close>-th call returns \<open>rnd k\<close>.
\<close>

record store = QuantumOptimizer +
  context_obj :: OptimizationContext
  draws :: nat

text \<open>
  The store at the start of the call \<^verbatim>\<open>this.optimize(ctx)\<close>. Arrays are lists, that is
  values: the source never assigns to an element of an array and calls no method that
  changes an array in place; whatever it stores is a fresh array made by \<^verbatim>\<open>map\<close>, by
  \<^verbatim>\<open>Array(n)\<close> or by spreading.
\<close>

definition enter :: "QuantumOptimizer \<Rightarrow> OptimizationContext \<Rightarrow> store" where
  "enter this ctx =
     \<lparr>config = config this, particles = particles this,
      quantumStates = quantumStates this,
      globalBestPosition = globalBestPosition this,
      globalBestFitness = globalBestFitness this,
      context_obj = ctx, draws = 0\<rparr>"

section \<open>Helpers for arrays, callbacks and exceptions\<close>

text \<open>
  \<^verbatim>\<open>Array(len)\<close> raises a \<^verbatim>\<open>RangeError\<close> unless \<open>len\<close> is an integer between 0 and
  \<open>2\<^sup>3\<^sup>2 - 1\<close>.
\<close>

fun Array_len :: "jsnum \<Rightarrow> error + nat" where
  "Array_len (Fin r) =
     (if 0 \<le> r \<and> r < 2 ^ 32 \<and> of_int \<lfloor>r\<rfloor> = r then Inr (nat \<lfloor>r\<rfloor>)
      else Inl RangeError)"
| "Array_len x = Inl RangeError"

text \<open>
  \<^verbatim>\<open>xs.map(f)\<close> where the callback calls \<^verbatim>\<open>Math.random()\<close>: the callback gets the
  number of draws made so far and returns the number after it.
\<close>

fun map_rnd :: "(nat \<Rightarrow> 'a \<Rightarrow> 'b \<times> nat) \<Rightarrow> nat \<Rightarrow> 'a list \<Rightarrow> 'b list \<times> nat" where
  "map_rnd f c [] = ([], c)"
| "map_rnd f c (x # xs) =
     (case f c x of (y, c') \<Rightarrow>
        (case map_rnd f c' xs of (ys, c'') \<Rightarrow> (y # ys, c'')))"

text \<open>The same where the callback may raise: the first exception is the result.\<close>

fun map_rnd_err ::
  "(nat \<Rightarrow> 'a \<Rightarrow> error + 'b \<times> nat) \<Rightarrow> nat \<Rightarrow> 'a list \<Rightarrow> error + 'b list \<times> nat" where
  "map_rnd_err f c [] = Inr ([], c)"
| "map_rnd_err f c (x # xs) =
     (case f c x of
        Inl e \<Rightarrow> Inl e
      | Inr (y, c') \<Rightarrow>
          (case map_rnd_err f c' xs of
             Inl e \<Rightarrow> Inl e
           | Inr (ys, c'') \<Rightarrow> Inr (y # ys, c'')))"

fun map_err :: "('a \<Rightarrow> error + 'b) \<Rightarrow> 'a list \<Rightarrow> error + 'b list" where
  "map_err f [] = Inr []"
| "map_err f (x # xs) =
     (case f x of
        Inl e \<Rightarrow> Inl e
      | Inr y \<Rightarrow> (case map_err f xs of Inl e \<Rightarrow> Inl e | Inr ys \<Rightarrow> Inr (y # ys)))"

text \<open>\<^verbatim>\<open>xs.reduce(f, init)\<close> and a \<^verbatim>\<open>for\<close> loop over a list, where a step may raise.\<close>

fun fold_err :: "('s \<Rightarrow> 'a \<Rightarrow> error + 's) \<Rightarrow> 's \<Rightarrow> 'a list \<Rightarrow> error + 's" where
  "fold_err f s [] = Inr s"
| "fold_err f s (x # xs) =
     (case f s x of Inl e \<Rightarrow> Inl e | Inr s' \<Rightarrow> fold_err f s' xs)"

section \<open>The optimizer\<close>

text \<open>
  The methods are \<^verbatim>\<open>async\<close>, but nothing in them waits for anything outside: the
  callbacks given to \<^verbatim>\<open>map\<close> run one after the other in the order of the array, and an
  exception raised in one of them rejects the promise of \<^verbatim>\<open>optimize\<close>. A method that
  can raise returns \<open>error + _\<close>; one that changes the optimizer takes the store and
  returns the new one.
\<close>

subsection \<open>Construction\<close>

text \<open>\<^verbatim>\<open>v || d\<close> on a number that may be absent: absent, \<^verbatim>\<open>0\<close> and \<^verbatim>\<open>NaN\<close> are falsy.\<close>

fun js_or :: "jsnum option \<Rightarrow> jsnum \<Rightarrow> jsnum" where
  "js_or None d = d"
| "js_or (Some x) d = (if x = NaN \<or> x = Fin 0 then d else x)"

definition constructor :: "QuantumConfigArg \<Rightarrow> QuantumOptimizer" where
  "constructor cfg =
     \<lparr>config =
        \<lparr>cfg_particles = js_or (arg_particles cfg) (Fin 100),
         cfg_iterations = js_or (arg_iterations cfg) (Fin 1000),
         cfg_convergenceThreshold = js_or (arg_convergenceThreshold cfg) (Fin (1 / 10 ^ 6))\<rparr>,
      particles = [],
      quantumStates = [],
      globalBestPosition = [],
      globalBestFitness = NegInf\<rparr>"

subsection \<open>Small helpers of the class\<close>

definition createComplex :: "jsnum \<Rightarrow> jsnum \<Rightarrow> Complex" where
  "createComplex re im = \<lparr>real_part = re, imaginary = im\<rparr>"

definition clamp :: "jsnum \<Rightarrow> jsnum \<Rightarrow> jsnum \<Rightarrow> jsnum" where
  "clamp v lo hi = js_max lo (js_min hi v)"

definition normalizeAllocation :: "jsnum list \<Rightarrow> jsnum list" where
  "normalizeAllocation alloc =
     (let total = foldl js_add (Fin 0) alloc in map (\<lambda>v. js_div v total) alloc)"

definition calculateQuantumInfluence :: "QuantumState \<Rightarrow> jsnum" where
  "calculateQuantumInfluence st =
     (let magnitude =
        js_sqrt (js_add (js_sq (real_part (amplitude st))) (js_sq (imaginary (amplitude st))))
      in js_mul magnitude (js_cos (phase st)))"

definition generateRandomAllocation :: "(nat \<Rightarrow> real) \<Rightarrow> nat \<Rightarrow> nat \<Rightarrow> jsnum list \<times> nat" where
  "generateRandomAllocation rnd c n =
     (case map_rnd (\<lambda>c _. (Fin (rnd c), Suc c)) c (replicate n (Fin 0)) of
        (alloc, c') \<Rightarrow> (normalizeAllocation alloc, c'))"

subsection \<open>Initialisation\<close>

definition newQuantumState :: "(nat \<Rightarrow> real) \<Rightarrow> nat \<Rightarrow> QuantumState \<times> nat" where
  "newQuantumState rnd c =
     (\<lparr>amplitude = createComplex (Fin (rnd c)) (Fin (rnd (c + 1))),
       phase = js_mul (js_mul (Fin (rnd (c + 2))) (Fin 2)) (Fin pi)\<rparr>, c + 3)"

definition initializeQuantumStates :: "(nat \<Rightarrow> real) \<Rightarrow> nat \<Rightarrow> store \<Rightarrow> error + store" where
  "initializeQuantumStates rnd dimension s =
     (case Array_len (cfg_particles (config s)) of
        Inl e \<Rightarrow> Inl e
      | Inr n \<Rightarrow>
          (case map_rnd
                  (\<lambda>c _. map_rnd (\<lambda>c _. newQuantumState rnd c) c (replicate dimension ()))
                  (draws s) (replicate n ()) of
             (grid, c) \<Rightarrow> Inr (s\<lparr>quantumStates := grid, draws := c\<rparr>)))"

definition newParticle :: "(nat \<Rightarrow> real) \<Rightarrow> OptimizationContext \<Rightarrow> nat \<Rightarrow> ParticleState \<times> nat" where
  "newParticle rnd ctx c =
     (case generateRandomAllocation rnd c (length (assets ctx)) of
        (pos, c') \<Rightarrow>
          (\<lparr>position = pos,
            velocity = replicate (length (assets ctx)) (Fin 0),
            bestPosition = pos,
            bestFitness = NegInf\<rparr>, c'))"

definition initializeParticles :: "(nat \<Rightarrow> real) \<Rightarrow> store \<Rightarrow> error + store" where
  "initializeParticles rnd s =
     (case Array_len (cfg_particles (config s)) of
        Inl e \<Rightarrow> Inl e
      | Inr n \<Rightarrow>
          (case map_rnd (\<lambda>c _. newParticle rnd (context_obj s) c) (draws s) (replicate n ()) of
             (ps, c) \<Rightarrow> Inr (s\<lparr>particles := ps, draws := c\<rparr>)))"

subsection \<open>Quantum-state evolution\<close>

text \<open>
  The source rounds every product, sum, cosine and sine below to a double; here they are
  exact. The values of the new amplitude and phase are therefore those of the source
  only up to rounding, and no statement of this development is about them: what is used
  of the evolution is that it keeps the shape of the grid and writes no other field.
\<close>

definition evolveState :: "(nat \<Rightarrow> real) \<Rightarrow> nat \<Rightarrow> QuantumState \<Rightarrow> QuantumState \<times> nat" where
  "evolveState rnd c state =
     (let newPhase =
            js_mod (js_add (phase state) (js_mul (Fin (rnd c)) (Fin pi)))
                   (js_mul (Fin 2) (Fin pi));
          newAmplitude =
            createComplex
              (js_sub (js_mul (js_cos newPhase) (real_part (amplitude state)))
                      (js_mul (js_sin newPhase) (imaginary (amplitude state))))
              (js_add (js_mul (js_sin newPhase) (real_part (amplitude state)))
                      (js_mul (js_cos newPhase) (imaginary (amplitude state))))
      in (\<lparr>amplitude = newAmplitude, phase = newPhase\<rparr>, Suc c))"

definition evolveQuantumStates :: "(nat \<Rightarrow> real) \<Rightarrow> store \<Rightarrow> store" where
  "evolveQuantumStates rnd s =
     (case map_rnd (\<lambda>c particleStates. map_rnd (evolveState rnd) c particleStates)
             (draws s) (quantumStates s) of
        (grid, c) \<Rightarrow> s\<lparr>quantumStates := grid, draws := c\<rparr>)"

subsection \<open>Particle update\<close>

definition newVelocityAt ::
  "(nat \<Rightarrow> real) \<Rightarrow> jsnum list \<Rightarrow> ParticleState \<Rightarrow> nat \<Rightarrow> jsnum \<times> nat \<Rightarrow> jsnum \<times> nat" where
  "newVelocityAt rnd gbest particle c vj =
     (case vj of (v, j) \<Rightarrow>
        (let cognitive =
               js_mul (js_mul (Fin (15 / 10)) (Fin (rnd c)))
                      (js_sub (get_num (bestPosition particle) j) (get_num (position particle) j));
             social =
               js_mul (js_mul (Fin (15 / 10)) (Fin (rnd (c + 1))))
                      (js_sub (get_num gbest j) (get_num (position particle) j))
         in (js_add (js_add (js_mul (Fin (7 / 10)) v) cognitive) social, c + 2)))"

text \<open>
  \<^verbatim>\<open>this.quantumStates[i][j]\<close>, whose fields are then read: a missing row or a missing
  state raises a \<^verbatim>\<open>TypeError\<close>.
\<close>

definition quantumStateAt :: "QuantumState list list \<Rightarrow> nat \<Rightarrow> nat \<Rightarrow> error + QuantumState" where
  "quantumStateAt grid i j =
     (if i < length grid \<and> j < length (grid ! i) then Inr (grid ! i ! j) else Inl TypeError)"

definition newPositionAt ::
  "QuantumState list list \<Rightarrow> jsnum list \<Rightarrow> nat \<Rightarrow> jsnum \<times> nat \<Rightarrow> error + jsnum" where
  "newPositionAt grid newVelocity i pj =
     (case pj of (p, j) \<Rightarrow>
        (case quantumStateAt grid i j of
           Inl e \<Rightarrow> Inl e
         | Inr state \<Rightarrow>
             Inr (clamp (js_add (js_add p (get_num newVelocity j))
                                (calculateQuantumInfluence state))
                        (Fin 0) (Fin 1))))"

definition indexed :: "'a list \<Rightarrow> ('a \<times> nat) list" where
  "indexed xs = zip xs [0..<length xs]"

definition updateParticle ::
  "(nat \<Rightarrow> real) \<Rightarrow> store \<Rightarrow> nat \<Rightarrow> ParticleState \<times> nat \<Rightarrow> error + ParticleState \<times> nat" where
  "updateParticle rnd s c particle_i =
     (case particle_i of (particle, i) \<Rightarrow>
        (case map_rnd (newVelocityAt rnd (globalBestPosition s) particle) c
                (indexed (velocity particle)) of
           (newVelocity, c') \<Rightarrow>
             (case map_err (newPositionAt (quantumStates s) newVelocity i)
                     (indexed (position particle)) of
                Inl e \<Rightarrow> Inl e
              | Inr newPosition \<Rightarrow>
                  Inr (particle\<lparr>position := normalizeAllocation newPosition,
                                velocity := newVelocity\<rparr>, c'))))"

definition updateParticles :: "(nat \<Rightarrow> real) \<Rightarrow> store \<Rightarrow> error + store" where
  "updateParticles rnd s =
     (case map_rnd_err (updateParticle rnd s) (draws s) (indexed (particles s)) of
        Inl e \<Rightarrow> Inl e
      | Inr (ps, c) \<Rightarrow> Inr (s\<lparr>particles := ps, draws := c\<rparr>))"

subsection \<open>Fitness\<close>

text \<open>
  \<^verbatim>\<open>returns[i].reduce((a, b) => a + b) / returns[i].length\<close>: a missing row and an
  empty row (a \<^verbatim>\<open>reduce\<close> with no initial value) raise a \<^verbatim>\<open>TypeError\<close>.
\<close>

definition assetReturnAt :: "jsnum list list \<Rightarrow> nat \<Rightarrow> error + jsnum" where
  "assetReturnAt rets i =
     (if i < length rets then
        (case rets ! i of
           [] \<Rightarrow> Inl TypeError
         | r # rs \<Rightarrow> Inr (js_div (foldl js_add r rs) (Fin (of_nat (length (r # rs))))))
      else Inl TypeError)"

definition calculateExpectedReturn :: "jsnum list \<Rightarrow> jsnum list list \<Rightarrow> error + jsnum" where
  "calculateExpectedReturn alloc rets =
     fold_err
       (\<lambda>acc wi. case wi of (weight, i) \<Rightarrow>
          (case assetReturnAt rets i of
             Inl e \<Rightarrow> Inl e
           | Inr assetReturn \<Rightarrow> Inr (js_add acc (js_mul weight assetReturn))))
       (Fin 0) (indexed alloc)"

definition varianceTerm :: "jsnum list \<Rightarrow> jsnum list \<Rightarrow> jsnum list \<Rightarrow> nat \<Rightarrow> nat \<Rightarrow> jsnum" where
  "varianceTerm alloc vol row i j =
     js_mul (js_mul (js_mul (js_mul (get_num alloc i) (get_num alloc j)) (get_num vol i))
                    (get_num vol j))
            (get_num row j)"

definition calculatePortfolioVolatility ::
  "jsnum list \<Rightarrow> jsnum list \<Rightarrow> jsnum list list \<Rightarrow> error + jsnum" where
  "calculatePortfolioVolatility alloc vol corr =
     (let n = length alloc in
      case fold_err
             (\<lambda>var i.
                fold_err
                  (\<lambda>var j.
                     if i < length corr
                     then Inr (js_add var (varianceTerm alloc vol (corr ! i) i j))
                     else Inl TypeError)
                  var [0..<n])
             (Fin 0) [0..<n] of
        Inl e \<Rightarrow> Inl e
      | Inr portfolioVariance \<Rightarrow> Inr (js_sqrt portfolioVariance))"

definition penaltyOf :: "jsnum \<Rightarrow> jsnum \<Rightarrow> jsnum \<Rightarrow> jsnum \<Rightarrow> jsnum" where
  "penaltyOf portfolioVolatility sharpe maxVol minSharpe =
     (let penalty = Fin 0;
          penalty =
            (if js_gt portfolioVolatility maxVol
             then js_add penalty (js_mul (js_sub portfolioVolatility maxVol) (Fin 100))
             else penalty);
          penalty =
            (if js_lt sharpe minSharpe
             then js_add penalty (js_mul (js_sub minSharpe sharpe) (Fin 100))
             else penalty)
      in penalty)"

definition calculateFitness :: "jsnum list \<Rightarrow> OptimizationContext \<Rightarrow> error + jsnum" where
  "calculateFitness alloc ctx =
     (case calculateExpectedReturn alloc (returns (historicalData ctx)) of
        Inl e \<Rightarrow> Inl e
      | Inr expReturn \<Rightarrow>
          (case calculatePortfolioVolatility alloc (volatility (historicalData ctx))
                  (correlation (historicalData ctx)) of
             Inl e \<Rightarrow> Inl e
           | Inr portfolioVolatility \<Rightarrow>
               (let sharpe = js_div (js_sub expReturn (Fin (2 / 100))) portfolioVolatility;
                    penalty =
                      penaltyOf portfolioVolatility sharpe
                        (maxVolatility (riskBudget (constraints ctx)))
                        (minSharpeRatio (riskBudget (constraints ctx)))
                in Inr (js_sub sharpe penalty))))"

subsection \<open>Evaluation\<close>

text \<open>
  What the callback of \<^verbatim>\<open>evaluateParticles\<close> does with a particle once its fitness is
  known; \<open>g\<close> is the pair of \<^verbatim>\<open>globalBestPosition\<close> and \<^verbatim>\<open>globalBestFitness\<close>.
\<close>

definition recordBest ::
  "jsnum list \<times> jsnum \<Rightarrow> ParticleState \<Rightarrow> jsnum \<Rightarrow> ParticleState \<times> (jsnum list \<times> jsnum)" where
  "recordBest g particle fitness =
     (if js_gt fitness (bestFitness particle)
      then (particle\<lparr>bestFitness := fitness, bestPosition := position particle\<rparr>,
            if js_gt fitness (snd g) then (position particle, fitness) else g)
      else (particle, g))"

fun evaluateEach ::
  "OptimizationContext \<Rightarrow> jsnum list \<times> jsnum \<Rightarrow> ParticleState list \<Rightarrow>
     error + ParticleState list \<times> (jsnum list \<times> jsnum)" where
  "evaluateEach ctx g [] = Inr ([], g)"
| "evaluateEach ctx g (particle # ps) =
     (case calculateFitness (position particle) ctx of
        Inl e \<Rightarrow> Inl e
      | Inr fitness \<Rightarrow>
          (case recordBest g particle fitness of
             (particle', g') \<Rightarrow>
               (case evaluateEach ctx g' ps of
                  Inl e \<Rightarrow> Inl e
                | Inr (ps', g'') \<Rightarrow> Inr (particle' # ps', g''))))"

definition evaluateParticles :: "store \<Rightarrow> error + store" where
  "evaluateParticles s =
     (case evaluateEach (context_obj s) (globalBestPosition s, globalBestFitness s)
             (particles s) of
        Inl e \<Rightarrow> Inl e
      | Inr (ps, g) \<Rightarrow>
          Inr (s\<lparr>particles := ps, globalBestPosition := fst g, globalBestFitness := snd g\<rparr>))"

subsection \<open>Result construction\<close>

definition magnitude :: "QuantumState \<Rightarrow> jsnum" where
  "magnitude state =
     js_sqrt (js_add (js_sq (real_part (amplitude state))) (js_sq (imaginary (amplitude state))))"

definition calculateConfidence :: "store \<Rightarrow> jsnum" where
  "calculateConfidence s =
     (let averageCoherence =
        js_div
          (foldl
             (\<lambda>acc particleStates.
                js_add acc
                  (js_div (foldl (\<lambda>pSum state. js_add pSum (magnitude state)) (Fin 0) particleStates)
                          (Fin (of_nat (length particleStates)))))
             (Fin 0) (quantumStates s))
          (Fin (of_nat (length (quantumStates s))))
      in clamp averageCoherence (Fin 0) (Fin 1))"

text \<open>
  \<^verbatim>\<open>returns[0].map(...)\<close> raises a \<^verbatim>\<open>TypeError\<close> when there is no first row, and so does
  \<^verbatim>\<open>returns[assetIndex][timeIndex]\<close> when the row of the asset is missing.
\<close>

definition drawdownStep :: "jsnum \<times> jsnum \<Rightarrow> jsnum \<Rightarrow> jsnum \<times> jsnum" where
  "drawdownStep mp ret =
     (case mp of (maxDD, peak) \<Rightarrow>
        (let peak = (if js_gt ret peak then ret else peak);
             drawdown = js_div (js_sub peak ret) peak
         in (if js_gt drawdown maxDD then drawdown else maxDD, peak)))"

definition calculateMaxDrawdown :: "jsnum list \<Rightarrow> OptimizationContext \<Rightarrow> error + jsnum" where
  "calculateMaxDrawdown alloc ctx =
     (let rets = returns (historicalData ctx) in
      case rets of
        [] \<Rightarrow> Inl TypeError
      | row0 # _ \<Rightarrow>
          (case map_err
                  (\<lambda>timeIndex.
                     fold_err
                       (\<lambda>acc wa. case wa of (weight, assetIndex) \<Rightarrow>
                          if assetIndex < length rets
                          then Inr (js_add acc
                                      (js_mul weight (get_num (rets ! assetIndex) timeIndex)))
                          else Inl TypeError)
                       (Fin 0) (indexed alloc))
                  [0..<length row0] of
             Inl e \<Rightarrow> Inl e
           | Inr portfolioReturns \<Rightarrow>
               Inr (fst (foldl drawdownStep (Fin 0, NegInf) portfolioReturns))))"

definition constructOptimizationResult :: "store \<Rightarrow> error + OptimizationResult" where
  "constructOptimizationResult s =
     (let ctx = context_obj s in
      case calculateExpectedReturn (globalBestPosition s) (returns (historicalData ctx)) of
        Inl e \<Rightarrow> Inl e
      | Inr expReturn \<Rightarrow>
          (case calculatePortfolioVolatility (globalBestPosition s)
                  (volatility (historicalData ctx)) (correlation (historicalData ctx)) of
             Inl e \<Rightarrow> Inl e
           | Inr vol \<Rightarrow>
               (case calculateMaxDrawdown (globalBestPosition s) ctx of
                  Inl e \<Rightarrow> Inl e
                | Inr maxDD \<Rightarrow>
                    Inr \<lparr>allocation = globalBestPosition s,
                         expectedReturn = expReturn,
                         confidence = calculateConfidence s,
                         metrics =
                           \<lparr>sharpeRatio = globalBestFitness s,
                            metrics_volatility = vol,
                            metrics_maxDrawdown = maxDD\<rparr>\<rparr>)))"

subsection \<open>The main loop\<close>

text \<open>The store together with the local variables of \<^verbatim>\<open>optimize\<close>.\<close>

record frame =
  st :: store
  iteration :: nat
  converged :: bool
  previousBestFitness :: jsnum

definition loopCondition :: "frame \<Rightarrow> bool" where
  "loopCondition l =
     (js_lt (Fin (of_nat (iteration l))) (cfg_iterations (config (st l))) \<and> \<not> converged l)"

definition loopBody :: "(nat \<Rightarrow> real) \<Rightarrow> frame \<Rightarrow> error + frame" where
  "loopBody rnd l =
     (case updateParticles rnd (evolveQuantumStates rnd (st l)) of
        Inl e \<Rightarrow> Inl e
      | Inr s \<Rightarrow>
          (case evaluateParticles s of
             Inl e \<Rightarrow> Inl e
           | Inr s' \<Rightarrow>
               Inr \<lparr>st = s',
                    iteration = Suc (iteration l),
                    converged =
                      (if js_lt (js_abs (js_sub (globalBestFitness s') (previousBestFitness l)))
                                (cfg_convergenceThreshold (config s'))
                       then True else converged l),
                    previousBestFitness = globalBestFitness s'\<rparr>))"

text \<open>
  The \<^verbatim>\<open>while\<close> loop. The iteration cap is a number, \<^verbatim>\<open>Infinity\<close> included, so the
  loop need not end: \<open>None\<close> is a run that never returns.
\<close>

partial_function (option) whileLoop :: "(nat \<Rightarrow> real) \<Rightarrow> frame \<Rightarrow> (error + frame) option" where
  "whileLoop rnd l =
     (if loopCondition l
      then (case loopBody rnd l of Inl e \<Rightarrow> Some (Inl e) | Inr l' \<Rightarrow> whileLoop rnd l')
      else Some (Inr l))"

text \<open>
  The first part of \<^verbatim>\<open>optimize\<close>, up to the exit of the loop: its value is the store
  together with the local variables as the loop leaves them.
\<close>

definition optimizeLoop :: "(nat \<Rightarrow> real) \<Rightarrow> store \<Rightarrow> (error + frame) option" where
  "optimizeLoop rnd s =
     (case initializeQuantumStates rnd (length (assets (context_obj s))) s of
        Inl e \<Rightarrow> Some (Inl e)
      | Inr s1 \<Rightarrow>
          (case initializeParticles rnd s1 of
             Inl e \<Rightarrow> Some (Inl e)
           | Inr s2 \<Rightarrow>
               whileLoop rnd
                 \<lparr>st = s2, iteration = 0, converged = False, previousBestFitness = NegInf\<rparr>))"

text \<open>
  \<^verbatim>\<open>optimize\<close>: a resolved promise is \<open>Some (Inr _)\<close>, with the result and the store the
  call leaves behind; a rejected one is \<open>Some (Inl _)\<close>.
\<close>

definition optimize ::
  "(nat \<Rightarrow> real) \<Rightarrow> store \<Rightarrow> (error + OptimizationResult \<times> store) option" where
  "optimize rnd s =
     (case optimizeLoop rnd s of
        None \<Rightarrow> None
      | Some (Inl e) \<Rightarrow> Some (Inl e)
      | Some (Inr l) \<Rightarrow>
          (case constructOptimizationResult (st l) of
             Inl e \<Rightarrow> Some (Inl e)
           | Inr res \<Rightarrow> Some (Inr (res, st l))))"

section \<open>Predicates on stores\<close>

text \<open>
  The quantum grid has one row per particle, and every row and every position has \<open>n\<close>
  entries.
\<close>

definition grid_fits :: "store \<Rightarrow> nat \<Rightarrow> bool" where
  "grid_fits s n =
     (length (quantumStates s) = length (particles s) \<and>
      list_all (\<lambda>row. length row = n) (quantumStates s) \<and>
      list_all (\<lambda>particle. length (position particle) = n) (particles s))"

text \<open>No global best has been recorded: the state the constructor leaves.\<close>

definition no_best_yet :: "store \<Rightarrow> bool" where
  "no_best_yet s = (globalBestPosition s = [] \<and> globalBestFitness s = NegInf)"

text \<open>
  The updates of the sequential evaluation pass, given the fitness of each particle:
  \<open>recordBest\<close> particle by particle.
\<close>

fun foldBest ::
  "jsnum list \<times> jsnum \<Rightarrow> (ParticleState \<times> jsnum) list \<Rightarrow>
     ParticleState list \<times> (jsnum list \<times> jsnum)" where
  "foldBest g [] = ([], g)"
| "foldBest g ((particle, fitness) # rest) =
     (case recordBest g particle fitness of
        (particle', g') \<Rightarrow>
          (case foldBest g' rest of (ps, g'') \<Rightarrow> (particle' # ps, g'')))"

section \<open>Reference definitions, following the specification\<close>

subsection \<open>Snapshot evaluation\<close>

text \<open>
  The evaluation phase as the specification words it. The fitness of every particle is
  computed first, from the positions as they are on entry. A particle whose fitness is
  greater than its personal best fitness replaces its personal best, position and
  fitness.
\<close>

definition personalBest_snapshot :: "ParticleState \<Rightarrow> jsnum \<Rightarrow> ParticleState" where
  "personalBest_snapshot particle fitness =
     (if js_gt fitness (bestFitness particle)
      then particle\<lparr>bestPosition := position particle, bestFitness := fitness\<rparr>
      else particle)"

text \<open>
  Such a particle contends for the global best if its fitness is also greater than the
  global best fitness on entry.
\<close>

definition contenders :: "jsnum \<Rightarrow> (ParticleState \<times> jsnum) list \<Rightarrow> (ParticleState \<times> jsnum) list" where
  "contenders g evaluated =
     filter (\<lambda>(particle, fitness). js_gt fitness (bestFitness particle) \<and> js_gt fitness g) evaluated"

text \<open>
  With no contender the global best stays; otherwise it becomes the position and the
  fitness of a contender that no contender exceeds. Which one of several such contenders
  of equal fitness it is, is left open.
\<close>

definition globalBest_snapshot ::
  "jsnum list \<times> jsnum \<Rightarrow> (ParticleState \<times> jsnum) list \<Rightarrow> jsnum list \<times> jsnum \<Rightarrow> bool" where
  "globalBest_snapshot g evaluated g' =
     (let cs = contenders (snd g) evaluated in
      if cs = [] then g' = g
      else list_ex (\<lambda>(particle, fitness).
             g' = (position particle, fitness) \<and>
             list_all (\<lambda>(other, fitness'). \<not> js_gt fitness' fitness) cs) cs)"

text \<open>
  \<open>outcome\<close> is an outcome of the snapshot evaluation of the store \<open>s\<close>: the exception of
  the first fitness computation that raises, or else the store with the personal bests
  and a global best as above and everything else as it was.
\<close>

definition snapshot_outcome :: "store \<Rightarrow> error + store \<Rightarrow> bool" where
  "snapshot_outcome s outcome =
     (case map_err (\<lambda>particle. calculateFitness (position particle) (context_obj s))
             (particles s) of
        Inl e \<Rightarrow> outcome = Inl e
      | Inr fitnesses \<Rightarrow>
          (case outcome of
             Inl e \<Rightarrow> False
           | Inr s' \<Rightarrow>
               s' = s\<lparr>particles := map (\<lambda>(particle, fitness). personalBest_snapshot particle fitness)
                                      (zip (particles s) fitnesses),
                       globalBestPosition := globalBestPosition s',
                       globalBestFitness := globalBestFitness s'\<rparr> \<and>
               globalBest_snapshot (globalBestPosition s, globalBestFitness s)
                 (zip (particles s) fitnesses)
                 (globalBestPosition s', globalBestFitness s')))"

text \<open>An outcome with the global best position left out.\<close>

definition without_position :: "error + store \<Rightarrow> error + store" where
  "without_position outcome = map_sum id (\<lambda>s'. s'\<lparr>globalBestPosition := []\<rparr>) outcome"

subsection \<open>The fitness formula\<close>

text \<open>
  The context invariant of the data model: with \<open>N\<close> assets there are \<open>N\<close> return
  series, none of them empty, \<open>N\<close> volatilities and an \<open>N \<times> N\<close> correlation matrix.
\<close>

definition valid_context :: "OptimizationContext \<Rightarrow> bool" where
  "valid_context ctx =
     (let n = length (assets ctx); h = historicalData ctx in
      0 < n \<and> length (returns h) = n \<and> list_all (\<lambda>r. r \<noteq> []) (returns h) \<and>
      length (volatility h) = n \<and> length (correlation h) = n \<and>
      list_all (\<lambda>row. length row = n) (correlation h))"

definition js_sum :: "jsnum list \<Rightarrow> jsnum" where
  "js_sum xs = foldr js_add xs (Fin 0)"

definition mean :: "jsnum list \<Rightarrow> jsnum" where
  "mean xs = js_div (js_sum xs) (Fin (of_nat (length xs)))"

definition expectedReturn_spec :: "jsnum list \<Rightarrow> OptimizationContext \<Rightarrow> jsnum" where
  "expectedReturn_spec w ctx =
     js_sum (map (\<lambda>i. js_mul (w ! i) (mean (returns (historicalData ctx) ! i))) [0..<length w])"

definition portfolioVolatility_spec :: "jsnum list \<Rightarrow> OptimizationContext \<Rightarrow> jsnum" where
  "portfolioVolatility_spec w ctx =
     (let vol = volatility (historicalData ctx); corr = correlation (historicalData ctx) in
      js_sqrt
        (js_sum (map (\<lambda>i.
           js_sum (map (\<lambda>j.
             js_mul (js_mul (js_mul (js_mul (w ! i) (w ! j)) (vol ! i)) (vol ! j)) (corr ! i ! j))
             [0..<length w]))
           [0..<length w])))"

definition sharpeRatio_spec :: "jsnum list \<Rightarrow> OptimizationContext \<Rightarrow> jsnum" where
  "sharpeRatio_spec w ctx =
     js_div (js_sub (expectedReturn_spec w ctx) (Fin (2 / 100))) (portfolioVolatility_spec w ctx)"

definition penalty_spec :: "jsnum list \<Rightarrow> OptimizationContext \<Rightarrow> jsnum" where
  "penalty_spec w ctx =
     js_add
       (if js_gt (portfolioVolatility_spec w ctx) (maxVolatility (riskBudget (constraints ctx)))
        then js_mul (js_sub (portfolioVolatility_spec w ctx)
                            (maxVolatility (riskBudget (constraints ctx)))) (Fin 100)
        else Fin 0)
       (if js_lt (sharpeRatio_spec w ctx) (minSharpeRatio (riskBudget (constraints ctx)))
        then js_mul (js_sub (minSharpeRatio (riskBudget (constraints ctx)))
                            (sharpeRatio_spec w ctx)) (Fin 100)
        else Fin 0)"

definition fitness_spec :: "jsnum list \<Rightarrow> OptimizationContext \<Rightarrow> jsnum" where
  "fitness_spec w ctx = js_sub (sharpeRatio_spec w ctx) (penalty_spec w ctx)"

subsection \<open>The Sharpe ratio at zero volatility\<close>

text \<open>
  The quotient \<open>(expectedReturn - 0.02) / 0\<close> under the rules of IEEE arithmetic: an
  infinity with the sign of the numerator, \<^verbatim>\<open>NaN\<close> when the numerator is zero or \<^verbatim>\<open>NaN\<close>.
\<close>

definition zeroVolatilitySharpe :: "jsnum \<Rightarrow> jsnum" where
  "zeroVolatilitySharpe er =
     (case er of
        Fin r \<Rightarrow> (if r = 2 / 100 then NaN else if 2 / 100 < r then PosInf else NegInf)
      | x \<Rightarrow> x)"

section \<open>Concrete inputs\<close>

text \<open>
  The two-asset scenario of the specification: returns \<open>[[0.01, 0.02], [0.03, 0.01]]\<close>,
  volatility \<open>[0.1, 0.2]\<close>, the identity correlation, \<open>maxVolatility = 1\<close> and
  \<open>minSharpeRatio = -10\<close>; and a one-asset context whose only asset has volatility 0.
\<close>

definition someConstraints :: "jsnum \<Rightarrow> jsnum \<Rightarrow> OptimizationConstraints" where
  "someConstraints maxVol minSharpe =
     \<lparr>riskTolerance = Fin (1 / 2), minAllocation = Fin 0, maxAllocation = Fin 1,
      minPositions = Fin 1, maxPositions = Fin 2, sectorDiversification = [],
      riskBudget = \<lparr>maxVolatility = maxVol, maxDrawdown = Fin 1, minSharpeRatio = minSharpe\<rparr>\<rparr>"

definition someRegime :: MarketRegime where
  "someRegime =
     \<lparr>regime_type = sideways, regime_confidence = Fin (1 / 2),
      regime_metrics = \<lparr>trendStrength = Fin 0, regime_volatility = Fin (1 / 10), momentum = Fin 0\<rparr>\<rparr>"

definition someAsset :: "string \<Rightarrow> Asset" where
  "someAsset name = \<lparr>symbol = name, price = Fin 100, volume = Fin 1000, asset_volatility = Fin (1 / 10)\<rparr>"

definition scenario_context :: OptimizationContext where
  "scenario_context =
     \<lparr>assets = [someAsset ''A'', someAsset ''B''],
      constraints = someConstraints (Fin 1) (Fin (- 10)),
      marketRegime = someRegime,
      historicalData =
        \<lparr>returns = [[Fin (1 / 100), Fin (2 / 100)], [Fin (3 / 100), Fin (1 / 100)]],
         volatility = [Fin (1 / 10), Fin (2 / 10)],
         correlation = [[Fin 1, Fin 0], [Fin 0, Fin 1]]\<rparr>\<rparr>"

definition scenario_config :: QuantumConfigArg where
  "scenario_config =
     \<lparr>arg_particles = Some (Fin 10), arg_iterations = Some (Fin 50),
      arg_convergenceThreshold = Some (Fin (1 / 10 ^ 8))\<rparr>"

definition zero_volatility_context :: OptimizationContext where
  "zero_volatility_context =
     \<lparr>assets = [someAsset ''A''],
      constraints = someConstraints (Fin 1) (Fin 0),
      marketRegime = someRegime,
      historicalData =
        \<lparr>returns = [[Fin (1 / 100)]], volatility = [Fin 0], correlation = [[Fin 1]]\<rparr>\<rparr>"

text \<open>
  A frame of one particle on one asset whose global best position is present, so that
  the next iteration evaluates a finite fitness.
\<close>

definition improving_frame :: frame where
  "improving_frame =
     \<lparr>st = \<lparr>config = \<lparr>cfg_particles = Fin 1, cfg_iterations = Fin 5,
                       cfg_convergenceThreshold = Fin (1 / 10 ^ 6)\<rparr>,
            particles = [\<lparr>position = [Fin 1], velocity = [Fin 0], bestPosition = [Fin 1],
                          bestFitness = NegInf\<rparr>],
            quantumStates = [[\<lparr>amplitude = \<lparr>real_part = Fin 0, imaginary = Fin 0\<rparr>,
                              phase = Fin 0\<rparr>]],
            globalBestPosition = [Fin 1],
            globalBestFitness = NegInf,
            context_obj =
              \<lparr>assets = [someAsset ''A''],
               constraints = someConstraints (Fin 2) (Fin (- 10)),
               marketRegime = someRegime,
               historicalData =
                 \<lparr>returns = [[Fin (3 / 100)]], volatility = [Fin 1], correlation = [[Fin 1]]\<rparr>\<rparr>,
            draws = 0\<rparr>,
      iteration = 0, converged = False, previousBestFitness = NegInf\<rparr>"

text \<open>
  Two particles of equal fitness at different positions, before any best was recorded,
  and the store after their evaluation, with the global best position \<open>best\<close>.
\<close>

definition tie_context :: OptimizationContext where
  "tie_context =
     \<lparr>assets = [someAsset ''A'', someAsset ''B''],
      constraints = someConstraints (Fin 2) (Fin (- 10)),
      marketRegime = someRegime,
      historicalData =
        \<lparr>returns = [[Fin (3 / 100)], [Fin (3 / 100)]],
         volatility = [Fin 1, Fin 1],
         correlation = [[Fin 1, Fin 0], [Fin 0, Fin 1]]\<rparr>\<rparr>"

definition tie_particle :: "jsnum list \<Rightarrow> jsnum \<Rightarrow> ParticleState" where
  "tie_particle pos best =
     \<lparr>position = pos, velocity = [Fin 0, Fin 0], bestPosition = pos, bestFitness = best\<rparr>"

definition tie_store :: store where
  "tie_store =
     \<lparr>config = \<lparr>cfg_particles = Fin 2, cfg_iterations = Fin 5,
                 cfg_convergenceThreshold = Fin (1 / 10 ^ 6)\<rparr>,
      particles = [tie_particle [Fin 1, Fin 0] NegInf, tie_particle [Fin 0, Fin 1] NegInf],
      quantumStates = [],
      globalBestPosition = [],
      globalBestFitness = NegInf,
      context_obj = tie_context,
      draws = 0\<rparr>"

definition tie_outcome :: "jsnum list \<Rightarrow> store" where
  "tie_outcome best =
     tie_store\<lparr>particles := [tie_particle [Fin 1, Fin 0] (Fin (1 / 100)),
                              tie_particle [Fin 0, Fin 1] (Fin (1 / 100))],
                globalBestPosition := best,
                globalBestFitness := Fin (1 / 100)\<rparr>"

section \<open>Construction: defaults and the absence of validation\<close>

text \<open>
  Claim C6, as amended. The constructor has no validation and cannot fail. Field by
  field, and whatever the other fields are: a value that is present, not zero and not
  \<^verbatim>\<open>NaN\<close> is stored as it is, whatever its sign, and for a field that is absent, zero or
  \<^verbatim>\<open>NaN\<close> the default is stored, particle count 100, iteration cap 1000, convergence
  threshold \<open>10\<^sup>-\<^sup>6\<close>.
\<close>

theorem constructor_stores_or_defaults:
  assumes "x \<noteq> NaN" and "x \<noteq> Fin 0"
  shows "cfg_particles (config (constructor (c\<lparr>arg_particles := Some x\<rparr>))) = x
       \<and> cfg_iterations (config (constructor (c\<lparr>arg_iterations := Some x\<rparr>))) = x
       \<and> cfg_convergenceThreshold
            (config (constructor (c\<lparr>arg_convergenceThreshold := Some x\<rparr>))) = x
       \<and> cfg_particles (config (constructor (c\<lparr>arg_particles := None\<rparr>))) = Fin 100
       \<and> cfg_iterations (config (constructor (c\<lparr>arg_iterations := None\<rparr>))) = Fin 1000
       \<and> cfg_convergenceThreshold
            (config (constructor (c\<lparr>arg_convergenceThreshold := None\<rparr>))) = Fin (1 / 10 ^ 6)
       \<and> cfg_particles (config (constructor (c\<lparr>arg_particles := Some NaN\<rparr>))) = Fin 100
       \<and> cfg_iterations (config (constructor (c\<lparr>arg_iterations := Some NaN\<rparr>))) = Fin 1000
       \<and> cfg_convergenceThreshold
            (config (constructor (c\<lparr>arg_convergenceThreshold := Some NaN\<rparr>))) = Fin (1 / 10 ^ 6)
       \<and> cfg_particles (config (constructor (c\<lparr>arg_particles := Some (Fin 0)\<rparr>))) = Fin 100
       \<and> cfg_iterations (config (constructor (c\<lparr>arg_iterations := Some (Fin 0)\<rparr>))) = Fin 1000
       \<and> cfg_convergenceThreshold
            (config (constructor (c\<lparr>arg_convergenceThreshold := Some (Fin 0)\<rparr>))) = Fin (1 / 10 ^ 6)"
  using assms by (simp add: constructor_def)

theorem constructor_stores_or_defaults_witness:
  "Fin (- 5) \<noteq> NaN \<and> Fin (- 5) \<noteq> Fin 0
   \<and> cfg_particles (config (constructor \<lparr>arg_particles = Some (Fin (- 5)),
        arg_iterations = Some (Fin 0), arg_convergenceThreshold = None\<rparr>)) = Fin (- 5)
   \<and> cfg_convergenceThreshold (config (constructor \<lparr>arg_particles = Some (Fin 50),
        arg_iterations = Some (Fin 0), arg_convergenceThreshold = Some (Fin (- 5))\<rparr>)) = Fin (- 5)
   \<and> cfg_iterations (config (constructor \<lparr>arg_particles = Some (Fin 50),
        arg_iterations = None, arg_convergenceThreshold = None\<rparr>)) = Fin 1000"
  using constructor_stores_or_defaults [of "Fin (- 5)" "\<lparr>arg_particles = Some (Fin 50),
        arg_iterations = Some (Fin 0), arg_convergenceThreshold = None\<rparr>"]
  by (simp add: constructor_def)

text \<open>
  Claim C6 as stated fails: with a negative particle count, a negative iteration cap
  and a negative convergence threshold the constructor returns an optimizer that holds
  these values.
\<close>

theorem constructor_negative_config_counterexample:
  "constructor \<lparr>arg_particles = Some (Fin (- 5)), arg_iterations = Some (Fin (- 1)),
                 arg_convergenceThreshold = Some (Fin (- 1))\<rparr> =
   \<lparr>config = \<lparr>cfg_particles = Fin (- 5), cfg_iterations = Fin (- 1),
               cfg_convergenceThreshold = Fin (- 1)\<rparr>,
    particles = [], quantumStates = [], globalBestPosition = [],
    globalBestFitness = NegInf\<rparr>"
  by (simp add: constructor_def)

text \<open>
  Claim C10. A field that is exactly 0 gives the same optimizer as an absent field,
  namely the default (100, 1000, \<open>10\<^sup>-\<^sup>6\<close>), whereas a negative value is stored unchanged.
\<close>

theorem constructor_zero_like_absent:
  assumes "r < 0"
  shows "constructor (c\<lparr>arg_particles := Some (Fin 0)\<rparr>) = constructor (c\<lparr>arg_particles := None\<rparr>)
       \<and> cfg_particles (config (constructor (c\<lparr>arg_particles := Some (Fin 0)\<rparr>))) = Fin 100
       \<and> constructor (c\<lparr>arg_iterations := Some (Fin 0)\<rparr>) = constructor (c\<lparr>arg_iterations := None\<rparr>)
       \<and> cfg_iterations (config (constructor (c\<lparr>arg_iterations := Some (Fin 0)\<rparr>))) = Fin 1000
       \<and> constructor (c\<lparr>arg_convergenceThreshold := Some (Fin 0)\<rparr>) =
           constructor (c\<lparr>arg_convergenceThreshold := None\<rparr>)
       \<and> cfg_convergenceThreshold
            (config (constructor (c\<lparr>arg_convergenceThreshold := Some (Fin 0)\<rparr>))) =
           Fin (1 / 10 ^ 6)
       \<and> cfg_particles (config (constructor (c\<lparr>arg_particles := Some (Fin r)\<rparr>))) = Fin r
       \<and> cfg_iterations (config (constructor (c\<lparr>arg_iterations := Some (Fin r)\<rparr>))) = Fin r
       \<and> cfg_convergenceThreshold
            (config (constructor (c\<lparr>arg_convergenceThreshold := Some (Fin r)\<rparr>))) = Fin r"
  using assms by (simp add: constructor_def)

theorem constructor_zero_like_absent_witness:
  "(- 3 :: real) < 0
   \<and> cfg_particles (config (constructor \<lparr>arg_particles = Some (Fin 0), arg_iterations = Some (Fin 7),
        arg_convergenceThreshold = None\<rparr>)) = Fin 100
   \<and> cfg_iterations (config (constructor \<lparr>arg_particles = Some (Fin 7), arg_iterations = Some (Fin (- 3)),
        arg_convergenceThreshold = None\<rparr>)) = Fin (- 3)"
  using constructor_zero_like_absent [of "- 3" "\<lparr>arg_particles = Some (Fin 7), arg_iterations = Some (Fin 7),
        arg_convergenceThreshold = None\<rparr>"] by (simp add: constructor_def)

section \<open>The fitness formula\<close>


lemma js_add_assoc: "js_add (js_add a b) c = js_add a (js_add b c)"
  by (cases a; cases b; cases c) simp_all

lemma js_add_zero [simp]: "js_add (Fin 0) x = x" "js_add x (Fin 0) = x"
  by (cases x; simp)+

lemma foldl_js_add: "foldl js_add a xs = js_add a (js_sum xs)"
  by (induction xs arbitrary: a) (simp_all add: js_sum_def js_add_assoc)

lemma fold_err_append:
  "fold_err f s (xs @ ys) = (case fold_err f s xs of Inl e \<Rightarrow> Inl e | Inr s' \<Rightarrow> fold_err f s' ys)"
  by (induction xs arbitrary: s) (auto split: sum.splits)

lemma indexed_snoc: "indexed (xs @ [x]) = indexed xs @ [(x, length xs)]"
  by (simp add: indexed_def)

lemma js_sum_append: "js_sum (xs @ ys) = js_add (js_sum xs) (js_sum ys)"
  by (induction xs) (simp_all add: js_sum_def js_add_assoc)

lemma js_sum_snoc: "js_sum (xs @ [x]) = js_add (js_sum xs) x"
  by (simp add: js_sum_append) (simp add: js_sum_def)

lemma fold_err_total:
  assumes "\<And>a x. x \<in> set xs \<Longrightarrow> f a x = Inr (g a x)"
  shows "fold_err f s xs = Inr (foldl g s xs)"
  using assms by (induction xs arbitrary: s) simp_all

lemma foldl_add_terms:
  "foldl (\<lambda>a j. js_add a (t j)) v js = js_add v (js_sum (map t js))"
  by (induction js arbitrary: v) (simp_all add: js_sum_def js_add_assoc)

lemma assetReturnAt_mean:
  assumes "i < length rets" "rets ! i \<noteq> []"
  shows "assetReturnAt rets i = Inr (mean (rets ! i))"
proof -
  obtain r rs where row: "rets ! i = r # rs" using assms(2) by (cases "rets ! i") auto
  have "foldl js_add r rs = js_sum (r # rs)"
    by (simp add: foldl_js_add) (simp add: js_sum_def)
  then show ?thesis using assms(1) row by (simp add: assetReturnAt_def mean_def)
qed

lemma calculateExpectedReturn_sum:
  assumes "length w \<le> length rets" "list_all (\<lambda>r. r \<noteq> []) rets"
  shows "calculateExpectedReturn w rets =
           Inr (js_sum (map (\<lambda>i. js_mul (w ! i) (mean (rets ! i))) [0..<length w]))"
  using assms(1)
proof (induction w rule: rev_induct)
  case Nil
  show ?case by (simp add: calculateExpectedReturn_def indexed_def js_sum_def)
next
  case (snoc x w)
  have len: "length w < length rets" using snoc.prems by simp
  then have "rets ! length w \<noteq> []" using assms(2) by (simp add: list_all_length)
  then have ar: "assetReturnAt rets (length w) = Inr (mean (rets ! length w))"
    using len by (simp add: assetReturnAt_mean)
  have ih: "calculateExpectedReturn w rets =
           Inr (js_sum (map (\<lambda>i. js_mul (w ! i) (mean (rets ! i))) [0..<length w]))"
    using snoc.IH len by simp
  have same: "map (\<lambda>i. js_mul ((w @ [x]) ! i) (mean (rets ! i))) [0..<length w] =
              map (\<lambda>i. js_mul (w ! i) (mean (rets ! i))) [0..<length w]"
    by (simp add: nth_append)
  show ?case
    using ih ar
    by (simp add: calculateExpectedReturn_def indexed_snoc fold_err_append js_sum_snoc same)
qed

lemma calculatePortfolioVolatility_sum:
  assumes "length w \<le> length corr"
  shows "calculatePortfolioVolatility w vol corr =
           Inr (js_sqrt (js_sum (map (\<lambda>i. js_sum (map (\<lambda>j. varianceTerm w vol (corr ! i) i j)
                   [0..<length w])) [0..<length w])))"
proof -
  let ?n = "length w"
  let ?row = "\<lambda>i. js_sum (map (\<lambda>j. varianceTerm w vol (corr ! i) i j) [0..<?n])"
  have inner: "fold_err (\<lambda>var j. if i < length corr
                     then Inr (js_add var (varianceTerm w vol (corr ! i) i j))
                     else Inl TypeError) v [0..<?n] = Inr (js_add v (?row i))"
    if "i \<in> set [0..<?n]" for i v
  proof -
    have "i < length corr" using that assms by simp
    then have "fold_err (\<lambda>var j. if i < length corr
                     then Inr (js_add var (varianceTerm w vol (corr ! i) i j))
                     else Inl TypeError) v [0..<?n] =
               Inr (foldl (\<lambda>var j. js_add var (varianceTerm w vol (corr ! i) i j)) v [0..<?n])"
      by (intro fold_err_total) simp
    then show ?thesis by (simp add: foldl_add_terms)
  qed
  have "fold_err (\<lambda>var i. fold_err (\<lambda>var j. if i < length corr
                     then Inr (js_add var (varianceTerm w vol (corr ! i) i j))
                     else Inl TypeError) var [0..<?n]) (Fin 0) [0..<?n] =
        Inr (foldl (\<lambda>var i. js_add var (?row i)) (Fin 0) [0..<?n])"
    by (rule fold_err_total) (rule inner)
  then show ?thesis
    by (simp add: calculatePortfolioVolatility_def Let_def foldl_add_terms)
qed

lemma varianceTerm_nth:
  assumes "i < length w" "j < length w" "length w \<le> length vol" "length w \<le> length row"
  shows "varianceTerm w vol row i j =
           js_mul (js_mul (js_mul (js_mul (w ! i) (w ! j)) (vol ! i)) (vol ! j)) (row ! j)"
  using assms by (simp add: varianceTerm_def get_num_def)

lemma penaltyOf_spec:
  "penaltyOf pv sr mv ms =
     js_add (if js_gt pv mv then js_mul (js_sub pv mv) (Fin 100) else Fin 0)
            (if js_lt sr ms then js_mul (js_sub ms sr) (Fin 100) else Fin 0)"
  by (simp add: penaltyOf_def Let_def)

text \<open>
  Claim C2. On a context that satisfies the invariant of the data model, the fitness of
  an allocation with one weight per asset is the Sharpe ratio minus the penalty, with the
  expected return, the portfolio volatility, the Sharpe ratio and the penalty as the
  specification defines them.
\<close>

theorem calculateFitness_formula:
  assumes "valid_context ctx" "length w = length (assets ctx)"
  shows "calculateFitness w ctx = Inr (fitness_spec w ctx)"
proof -
  let ?h = "historicalData ctx"
  have shapes: "length w \<le> length (returns ?h)" "list_all (\<lambda>r. r \<noteq> []) (returns ?h)"
    "length w \<le> length (volatility ?h)" "length w \<le> length (correlation ?h)"
    "list_all (\<lambda>row. length row = length w) (correlation ?h)"
    using assms by (simp_all add: valid_context_def Let_def)
  have er: "calculateExpectedReturn w (returns ?h) = Inr (expectedReturn_spec w ctx)"
    using shapes(1,2) by (simp add: calculateExpectedReturn_sum expectedReturn_spec_def)
  have rows: "map (\<lambda>j. varianceTerm w (volatility ?h) (correlation ?h ! i) i j) [0..<length w] =
              map (\<lambda>j. js_mul (js_mul (js_mul (js_mul (w ! i) (w ! j)) (volatility ?h ! i))
                     (volatility ?h ! j)) (correlation ?h ! i ! j)) [0..<length w]"
    if "i < length w" for i
  proof (rule map_cong [OF refl])
    fix j assume "j \<in> set [0..<length w]"
    then have j: "j < length w" by simp
    have "length (correlation ?h ! i) = length w"
      using shapes(4,5) that by (simp add: list_all_length)
    then show "varianceTerm w (volatility ?h) (correlation ?h ! i) i j =
        js_mul (js_mul (js_mul (js_mul (w ! i) (w ! j)) (volatility ?h ! i))
                     (volatility ?h ! j)) (correlation ?h ! i ! j)"
      using that j shapes(3) by (simp add: varianceTerm_nth)
  qed
  have eq: "map (\<lambda>i. js_sum (map (\<lambda>j. varianceTerm w (volatility ?h) (correlation ?h ! i) i j)
                   [0..<length w])) [0..<length w] =
        map (\<lambda>i. js_sum (map (\<lambda>j. js_mul (js_mul (js_mul (js_mul (w ! i) (w ! j)) (volatility ?h ! i))
                     (volatility ?h ! j)) (correlation ?h ! i ! j)) [0..<length w])) [0..<length w]"
    by (rule map_cong [OF refl]) (simp add: rows)
  have pv: "calculatePortfolioVolatility w (volatility ?h) (correlation ?h) =
                   Inr (portfolioVolatility_spec w ctx)"
    by (simp only: calculatePortfolioVolatility_sum [OF shapes(4)] portfolioVolatility_spec_def
        Let_def eq)
  show ?thesis
    by (simp add: calculateFitness_def er pv Let_def penaltyOf_spec fitness_spec_def
        penalty_spec_def sharpeRatio_spec_def)
qed

theorem calculateFitness_formula_witness:
  "valid_context scenario_context
   \<and> length [Fin (1 / 2), Fin (1 / 2)] = length (assets scenario_context)
   \<and> calculateFitness [Fin (1 / 2), Fin (1 / 2)] scenario_context =
       Inr (fitness_spec [Fin (1 / 2), Fin (1 / 2)] scenario_context)"
proof -
  have v: "valid_context scenario_context"
    by (simp add: valid_context_def scenario_context_def)
  have l: "length [Fin (1 / 2), Fin (1 / 2)] = length (assets scenario_context)"
    by (simp add: scenario_context_def)
  show ?thesis using v l calculateFitness_formula [OF v l] by simp
qed

section \<open>Zero portfolio volatility\<close>

text \<open>
  Claim C5, as amended. When the portfolio volatility of an allocation is 0,
  \<^verbatim>\<open>calculateFitness\<close> raises nothing: it divides, so that the Sharpe ratio is an
  infinity or \<^verbatim>\<open>NaN\<close>, and returns the Sharpe ratio minus the penalty computed from it.
\<close>

theorem zero_volatility_fitness:
  assumes "calculateExpectedReturn w (returns (historicalData ctx)) = Inr er"
    and "calculatePortfolioVolatility w (volatility (historicalData ctx))
           (correlation (historicalData ctx)) = Inr (Fin 0)"
  shows "calculateFitness w ctx =
           Inr (js_sub (zeroVolatilitySharpe er)
                  (penaltyOf (Fin 0) (zeroVolatilitySharpe er)
                     (maxVolatility (riskBudget (constraints ctx)))
                     (minSharpeRatio (riskBudget (constraints ctx)))))"
proof -
  have "js_div (js_sub er (Fin (2 / 100))) (Fin 0) = zeroVolatilitySharpe er"
    by (cases er) (auto simp: js_sub_def zeroVolatilitySharpe_def signed_inf_def)
  then show ?thesis using assms by (simp add: calculateFitness_def Let_def)
qed

theorem zero_volatility_fitness_witness:
  "calculateExpectedReturn [Fin 1] (returns (historicalData zero_volatility_context)) = Inr (Fin (1 / 100))
   \<and> calculatePortfolioVolatility [Fin 1] (volatility (historicalData zero_volatility_context))
           (correlation (historicalData zero_volatility_context)) = Inr (Fin 0)
   \<and> calculateFitness [Fin 1] zero_volatility_context = Inr NegInf"
proof -
  have e: "calculateExpectedReturn [Fin 1] (returns (historicalData zero_volatility_context)) = Inr (Fin (1 / 100))"
    by (simp add: calculateExpectedReturn_def assetReturnAt_def indexed_def zero_volatility_context_def)
  have v: "calculatePortfolioVolatility [Fin 1] (volatility (historicalData zero_volatility_context))
           (correlation (historicalData zero_volatility_context)) = Inr (Fin 0)"
    by (simp add: calculatePortfolioVolatility_def varianceTerm_def get_num_def zero_volatility_context_def)
  show ?thesis using e v zero_volatility_fitness [OF e v]
    by (simp add: zeroVolatilitySharpe_def penaltyOf_def js_gt_def js_sub_def signed_inf_def
        zero_volatility_context_def someConstraints_def Let_def)
qed

text \<open>
  Claim C5 as stated fails: for the one-asset context with volatility 0 the portfolio
  volatility of the allocation \<open>[1]\<close> is 0 and the fitness is returned as \<^verbatim>\<open>-Infinity\<close>.
\<close>

theorem zero_volatility_no_error_counterexample:
  "calculatePortfolioVolatility [Fin 1]
     (volatility (historicalData zero_volatility_context))
     (correlation (historicalData zero_volatility_context)) = Inr (Fin 0)
   \<and> calculateFitness [Fin 1] zero_volatility_context = Inr NegInf"
  by (simp add: calculateFitness_def calculatePortfolioVolatility_def calculateExpectedReturn_def
      assetReturnAt_def indexed_def varianceTerm_def get_num_def penaltyOf_def js_gt_def js_sub_def
      signed_inf_def zero_volatility_context_def someConstraints_def Let_def)

section \<open>Callbacks that cannot raise\<close>

lemma map_rnd_rel:
  assumes "\<And>c x. x \<in> set xs \<Longrightarrow> R x (fst (f c x))"
  shows "list_all2 R xs (fst (map_rnd f c xs))"
  using assms
proof (induction xs arbitrary: c)
  case Nil
  show ?case by simp
next
  case (Cons x xs)
  obtain y c' where fx: "f c x = (y, c')" by (cases "f c x")
  obtain ys c'' where rest: "map_rnd f c' xs = (ys, c'')" by (cases "map_rnd f c' xs")
  have "R x y" using Cons.prems [of x c] fx by simp
  moreover have "list_all2 R xs ys" using Cons.IH [of c'] Cons.prems rest by simp
  ultimately show ?case using fx rest by simp
qed

lemma map_rnd_length: "length (fst (map_rnd f c xs)) = length xs"
  using map_rnd_rel [of xs "\<lambda>_ _. True" f c] by (simp add: list_all2_lengthD)

lemma map_rnd_all:
  assumes "\<And>c x. x \<in> set xs \<Longrightarrow> P (fst (f c x))"
  shows "list_all P (fst (map_rnd f c xs))"
proof -
  have "list_all2 (\<lambda>_ y. P y) xs (fst (map_rnd f c xs))"
    by (rule map_rnd_rel) (rule assms)
  then show ?thesis by (auto simp: list_all2_conv_all_nth list_all_length)
qed

lemma map_err_total:
  assumes "\<And>x. x \<in> set xs \<Longrightarrow> f x = Inr (g x)"
  shows "map_err f xs = Inr (map g xs)"
  using assms by (induction xs) simp_all

lemma map_rnd_err_rel:
  assumes "\<And>c x. x \<in> set xs \<Longrightarrow> \<exists>y c'. f c x = Inr (y, c') \<and> R x y"
  shows "\<exists>ys c'. map_rnd_err f c xs = Inr (ys, c') \<and> list_all2 R xs ys"
  using assms
proof (induction xs arbitrary: c)
  case Nil
  show ?case by simp
next
  case (Cons x xs)
  obtain y c' where fx: "f c x = Inr (y, c')" "R x y" using Cons.prems [of x c] by auto
  obtain ys c'' where rest: "map_rnd_err f c' xs = Inr (ys, c'')" "list_all2 R xs ys"
    using Cons.IH [of c'] Cons.prems by auto
  show ?case using fx rest by simp
qed

section \<open>The first update reads a global best that does not exist\<close>

text \<open>
  As long as \<^verbatim>\<open>globalBestPosition\<close> is the empty array, \<^verbatim>\<open>globalBestPosition[j]\<close> is
  \<^verbatim>\<open>undefined\<close>: the social term of every velocity is \<^verbatim>\<open>NaN\<close>, and so are every new
  velocity and every component of every new position.
\<close>

lemma js_add_NaN [simp]: "js_add x NaN = NaN" "js_add NaN x = NaN"
  by (cases x; simp)+

lemma js_mul_NaN [simp]: "js_mul x NaN = NaN"
  by (cases x) simp_all

lemma js_sub_NaN [simp]: "js_sub NaN x = NaN" "js_sub x NaN = NaN"
  by (simp_all add: js_sub_def)

lemma js_gt_NaN [simp]: "js_gt NaN x = False" "js_gt x NaN = False"
  by (cases x; simp add: js_gt_def)+

lemma js_lt_NaN [simp]: "js_lt x NaN = False"
  by (cases x) simp_all

lemma clamp_NaN [simp]: "clamp NaN lo hi = NaN"
  by (simp add: clamp_def js_min_def js_max_def)

lemma get_num_all_NaN:
  assumes "list_all (\<lambda>v. v = NaN) vs"
  shows "get_num vs j = NaN"
  using assms by (simp add: get_num_def list_all_length)

lemma newVelocityAt_no_best: "fst (newVelocityAt rnd [] particle c vj) = NaN"
  by (cases vj) (simp add: newVelocityAt_def get_num_def Let_def)

lemma newVelocity_no_best:
  "list_all (\<lambda>v. v = NaN) (fst (map_rnd (newVelocityAt rnd [] particle) c vjs))"
  by (rule map_rnd_all) (rule newVelocityAt_no_best)

lemma newPosition_NaN:
  assumes "list_all (\<lambda>v. v = NaN) nv" "i < length grid" "n \<le> length (grid ! i)" "length pos = n"
  shows "map_err (newPositionAt grid nv i) (indexed pos) = Inr (replicate n NaN)"
proof -
  have "map_err (newPositionAt grid nv i) (indexed pos) = Inr (map (\<lambda>pj. NaN) (indexed pos))"
  proof (rule map_err_total)
    fix pj assume "pj \<in> set (indexed pos)"
    then obtain p j where pj: "pj = (p, j)" "j < length pos"
      by (auto simp: indexed_def set_zip)
    then have "quantumStateAt grid i j = Inr (grid ! i ! j)"
      using assms by (simp add: quantumStateAt_def)
    then show "newPositionAt grid nv i pj = Inr NaN"
      using pj get_num_all_NaN [OF assms(1)] by (simp add: newPositionAt_def)
  qed
  then show ?thesis using assms(4) by (simp add: indexed_def map_replicate_const)
qed

lemma normalizeAllocation_NaN: "normalizeAllocation (replicate n NaN) = replicate n NaN"
  by (simp add: normalizeAllocation_def Let_def)

lemma updateParticle_no_best:
  assumes "globalBestPosition s = []" "i < length (quantumStates s)"
    "length (position particle) \<le> length (quantumStates s ! i)"
  shows "\<exists>p' c'. updateParticle rnd s c (particle, i) = Inr (p', c') \<and>
           position p' = replicate (length (position particle)) NaN"
proof -
  obtain nv c' where nv: "map_rnd (newVelocityAt rnd [] particle) c (indexed (velocity particle)) = (nv, c')"
    by (cases "map_rnd (newVelocityAt rnd [] particle) c (indexed (velocity particle))")
  have "list_all (\<lambda>v. v = NaN) nv"
    using newVelocity_no_best [of rnd particle c "indexed (velocity particle)"] nv by simp
  then have "map_err (newPositionAt (quantumStates s) nv i) (indexed (position particle)) =
               Inr (replicate (length (position particle)) NaN)"
    using assms(2,3) by (intro newPosition_NaN) simp_all
  then show ?thesis
    using nv assms(1) by (simp add: updateParticle_def normalizeAllocation_NaN)
qed

lemma updateParticles_no_best:
  assumes "no_best_yet s" "grid_fits s n"
  shows "\<exists>ps c. updateParticles rnd s = Inr (s\<lparr>particles := ps, draws := c\<rparr>) \<and>
           length ps = length (particles s) \<and>
           list_all (\<lambda>p. position p = replicate n NaN) ps"
proof -
  let ?R = "\<lambda>(pi :: ParticleState \<times> nat) p'. position p' = replicate n NaN"
  have "\<exists>ys c'. map_rnd_err (updateParticle rnd s) (draws s) (indexed (particles s)) = Inr (ys, c') \<and>
          list_all2 ?R (indexed (particles s)) ys"
  proof (rule map_rnd_err_rel)
    fix c x assume "x \<in> set (indexed (particles s))"
    then obtain p i where x: "x = (p, i)" "i < length (particles s)" "p = particles s ! i"
      by (auto simp: indexed_def set_zip)
    have len: "length (position p) = n" "i < length (quantumStates s)" "length (quantumStates s ! i) = n"
      using assms(2) x by (simp_all add: grid_fits_def list_all_length)
    then show "\<exists>y c'. updateParticle rnd s c x = Inr (y, c') \<and> ?R x y"
      using updateParticle_no_best [of s i p rnd c] assms(1) x(1)
      by (auto simp: no_best_yet_def)
  qed
  then obtain ys c' where ys: "map_rnd_err (updateParticle rnd s) (draws s) (indexed (particles s)) = Inr (ys, c')"
    "list_all2 ?R (indexed (particles s)) ys" by blast
  have "length ys = length (particles s)"
    using ys(2) by (simp add: list_all2_lengthD [symmetric] indexed_def)
  moreover have "list_all (\<lambda>p. position p = replicate n NaN) ys"
    using ys(2) by (auto simp: list_all2_conv_all_nth list_all_length)
  moreover have "updateParticles rnd s = Inr (s\<lparr>particles := ys, draws := c'\<rparr>)"
    using ys(1) by (simp add: updateParticles_def)
  ultimately show ?thesis by blast
qed

text \<open>
  The fitness of an all-\<^verbatim>\<open>NaN\<close> position is \<^verbatim>\<open>NaN\<close>, which is greater than nothing: the
  evaluation phase changes nothing.
\<close>

lemma js_sum_Cons: "js_sum (x # xs) = js_add x (js_sum xs)"
  by (simp add: js_sum_def)

lemma js_div_NaN [simp]: "js_div NaN x = NaN"
  by (cases x) simp_all

lemma calculateFitness_NaN:
  assumes "valid_context ctx" "n = length (assets ctx)"
  shows "calculateFitness (replicate n NaN) ctx = Inr NaN"
proof -
  let ?h = "historicalData ctx"
  let ?w = "replicate n NaN"
  have n: "0 < n" "length ?w \<le> length (returns ?h)" "list_all (\<lambda>r. r \<noteq> []) (returns ?h)"
    "length ?w \<le> length (correlation ?h)"
    using assms by (simp_all add: valid_context_def Let_def)
  have "[0..<n] = 0 # [1..<n]" using n(1) by (simp add: upt_conv_Cons)
  then have "js_sum (map (\<lambda>i. js_mul (?w ! i) (mean (returns ?h ! i))) [0..<length ?w]) = NaN"
    using n(1) by (simp add: js_sum_Cons)
  then have er: "calculateExpectedReturn ?w (returns ?h) = Inr NaN"
    using calculateExpectedReturn_sum [OF n(2,3)] by simp
  obtain pv where pv: "calculatePortfolioVolatility ?w (volatility ?h) (correlation ?h) = Inr pv"
    using calculatePortfolioVolatility_sum [OF n(4)] by blast
  show ?thesis by (simp add: calculateFitness_def er pv Let_def)
qed

lemma recordBest_NaN [simp]: "recordBest g particle NaN = (particle, g)"
  by (simp add: recordBest_def)

lemma evaluateEach_NaN:
  assumes "list_all (\<lambda>p. calculateFitness (position p) ctx = Inr NaN) ps"
  shows "evaluateEach ctx g ps = Inr (ps, g)"
  using assms by (induction ps) simp_all

lemma evaluateParticles_NaN:
  assumes "valid_context (context_obj s)"
    and "list_all (\<lambda>p. position p = replicate (length (assets (context_obj s))) NaN) (particles s)"
  shows "evaluateParticles s = Inr s"
proof -
  have "list_all (\<lambda>p. calculateFitness (position p) (context_obj s) = Inr NaN) (particles s)"
    using assms(2) calculateFitness_NaN [OF assms(1) refl] by (simp add: list_all_iff)
  then show ?thesis by (simp add: evaluateParticles_def evaluateEach_NaN)
qed

text \<open>Quantum-state evolution changes the grid only, and keeps its shape.\<close>

lemma evolveQuantumStates_fields [simp]:
  "particles (evolveQuantumStates rnd s) = particles s"
  "globalBestPosition (evolveQuantumStates rnd s) = globalBestPosition s"
  "globalBestFitness (evolveQuantumStates rnd s) = globalBestFitness s"
  "config (evolveQuantumStates rnd s) = config s"
  "context_obj (evolveQuantumStates rnd s) = context_obj s"
  by (simp_all add: evolveQuantumStates_def split: prod.splits)

lemma evolveQuantumStates_shape:
  "list_all2 (\<lambda>row row'. length row' = length row)
     (quantumStates s) (quantumStates (evolveQuantumStates rnd s))"
proof -
  have "list_all2 (\<lambda>row row'. length row' = length row) (quantumStates s)
          (fst (map_rnd (\<lambda>c particleStates. map_rnd (evolveState rnd) c particleStates)
             (draws s) (quantumStates s)))"
    by (rule map_rnd_rel) (simp add: map_rnd_length)
  then show ?thesis by (auto simp: evolveQuantumStates_def split: prod.splits)
qed

lemma evolveQuantumStates_grid_fits:
  assumes "grid_fits s n"
  shows "grid_fits (evolveQuantumStates rnd s) n"
  using assms evolveQuantumStates_shape [of s rnd]
  by (auto simp: grid_fits_def list_all2_conv_all_nth list_all_length)

lemma evolveQuantumStates_no_best:
  "no_best_yet (evolveQuantumStates rnd s) = no_best_yet s"
  by (simp add: no_best_yet_def)

text \<open>
  One pass of the loop from a store with no global best: nothing raises, no best is
  recorded, and the convergence test compares \<^verbatim>\<open>-Infinity\<close> with \<^verbatim>\<open>-Infinity\<close>.
\<close>

lemma loopBody_no_best:
  assumes "valid_context (context_obj (st l))"
    and "grid_fits (st l) (length (assets (context_obj (st l))))"
    and "no_best_yet (st l)" and "previousBestFitness l = NegInf"
  shows "\<exists>l'. loopBody rnd l = Inr l' \<and> iteration l' = Suc (iteration l) \<and>
           converged l' = converged l \<and> previousBestFitness l' = NegInf \<and>
           no_best_yet (st l') \<and> grid_fits (st l') (length (assets (context_obj (st l)))) \<and>
           context_obj (st l') = context_obj (st l) \<and> config (st l') = config (st l) \<and>
           quantumStates (st l') = quantumStates (evolveQuantumStates rnd (st l))"
proof -
  let ?n = "length (assets (context_obj (st l)))"
  let ?s1 = "evolveQuantumStates rnd (st l)"
  have g1: "grid_fits ?s1 ?n" using assms(2) by (rule evolveQuantumStates_grid_fits)
  have b1: "no_best_yet ?s1" using assms(3) by (simp add: evolveQuantumStates_no_best)
  obtain ps c where up: "updateParticles rnd ?s1 = Inr (?s1\<lparr>particles := ps, draws := c\<rparr>)"
    "length ps = length (particles ?s1)" "list_all (\<lambda>p. position p = replicate ?n NaN) ps"
    using updateParticles_no_best [OF b1 g1] by blast
  let ?s2 = "?s1\<lparr>particles := ps, draws := c\<rparr>"
  have ev: "evaluateParticles ?s2 = Inr ?s2"
    using assms(1) up(3) by (intro evaluateParticles_NaN) simp_all
  have g2: "grid_fits ?s2 ?n"
    using g1 up(2,3) by (auto simp: grid_fits_def list_all_length)
  have b2: "no_best_yet ?s2" using b1 by (simp add: no_best_yet_def)
  have "js_sub (globalBestFitness ?s2) (previousBestFitness l) = NaN"
    using b2 assms(4) by (simp add: no_best_yet_def js_sub_def)
  then show ?thesis
    using up(1) ev g2 b2 assms(3) by (simp add: loopBody_def no_best_yet_def)
qed

text \<open>
  Hence the loop, started with no global best and an integral iteration cap \<open>k\<close>, runs
  until the counter reaches \<open>k\<close> and leaves the store without a global best.
\<close>

lemma loopCondition_nat:
  assumes "cfg_iterations (config (st l)) = Fin (of_nat k)"
  shows "loopCondition l = (iteration l < k \<and> \<not> converged l)"
  using assms by (simp add: loopCondition_def)

lemma whileLoop_no_best:
  assumes "valid_context (context_obj (st l))"
    and "grid_fits (st l) (length (assets (context_obj (st l))))"
    and "no_best_yet (st l)" and "previousBestFitness l = NegInf" and "\<not> converged l"
    and "cfg_iterations (config (st l)) = Fin (of_nat k)" and "iteration l \<le> k"
  shows "\<exists>l'. whileLoop rnd l = Some (Inr l') \<and> iteration l' = k \<and> \<not> converged l' \<and>
           no_best_yet (st l') \<and> context_obj (st l') = context_obj (st l) \<and>
           config (st l') = config (st l)"
  using assms
proof (induction "k - iteration l" arbitrary: l)
  case 0
  then have "\<not> loopCondition l" by (simp add: loopCondition_nat)
  then have "whileLoop rnd l = Some (Inr l)" by (subst whileLoop.simps) simp
  then show ?case using 0 by simp
next
  case (Suc d)
  then have cond: "loopCondition l" by (simp add: loopCondition_nat)
  obtain l1 where l1: "loopBody rnd l = Inr l1" "iteration l1 = Suc (iteration l)"
    "converged l1 = converged l" "previousBestFitness l1 = NegInf" "no_best_yet (st l1)"
    "grid_fits (st l1) (length (assets (context_obj (st l))))"
    "context_obj (st l1) = context_obj (st l)" "config (st l1) = config (st l)"
    using loopBody_no_best [OF Suc.prems(1-4), of rnd] by blast
  have step: "whileLoop rnd l = whileLoop rnd l1"
    using cond l1(1) by (subst whileLoop.simps) simp
  have "\<exists>l'. whileLoop rnd l1 = Some (Inr l') \<and> iteration l' = k \<and> \<not> converged l' \<and>
           no_best_yet (st l') \<and> context_obj (st l') = context_obj (st l1) \<and>
           config (st l') = config (st l1)"
  proof (rule Suc.hyps(1))
    show "d = k - iteration l1" using Suc.hyps(2) l1(2) by simp
    show "valid_context (context_obj (st l1))" using Suc.prems(1) l1(7) by simp
    show "grid_fits (st l1) (length (assets (context_obj (st l1))))" using l1(6,7) by simp
    show "no_best_yet (st l1)" by (rule l1(5))
    show "previousBestFitness l1 = NegInf" by (rule l1(4))
    show "\<not> converged l1" using Suc.prems(5) l1(3) by simp
    show "cfg_iterations (config (st l1)) = Fin (of_nat k)" using Suc.prems(6) l1(8) by simp
    show "iteration l1 \<le> k" using Suc.hyps(2) l1(2) by simp
  qed
  then show ?case using step l1(7,8) by simp
qed

text \<open>Initialisation builds a grid and a population of matching shape.\<close>

lemma normalizeAllocation_length [simp]: "length (normalizeAllocation xs) = length xs"
  by (simp add: normalizeAllocation_def Let_def)

lemma newParticle_length: "length (position (fst (newParticle rnd ctx c))) = length (assets ctx)"
proof -
  have "length (fst (generateRandomAllocation rnd c n)) = n" for n
    using map_rnd_length [of "\<lambda>c _. (Fin (rnd c), Suc c)" c "replicate n (Fin 0)"]
    by (auto simp: generateRandomAllocation_def split: prod.splits)
  then show ?thesis
    by (auto simp: newParticle_def split: prod.splits) (metis fst_conv)
qed

lemma initializeQuantumStates_fits:
  assumes "Array_len (cfg_particles (config s)) = Inr m"
  shows "\<exists>grid c. initializeQuantumStates rnd n s = Inr (s\<lparr>quantumStates := grid, draws := c\<rparr>) \<and>
           length grid = m \<and> list_all (\<lambda>row. length row = n) grid"
proof -
  let ?f = "\<lambda>c (_ :: unit). map_rnd (\<lambda>c (_ :: unit). newQuantumState rnd c) c (replicate n ())"
  obtain grid c where g: "map_rnd ?f (draws s) (replicate m ()) = (grid, c)"
    by (cases "map_rnd ?f (draws s) (replicate m ())")
  have "length grid = m" using map_rnd_length [of ?f "draws s" "replicate m ()"] g by simp
  moreover have "list_all (\<lambda>row. length row = n) (fst (map_rnd ?f (draws s) (replicate m ())))"
    by (rule map_rnd_all) (simp add: map_rnd_length)
  then have "list_all (\<lambda>row. length row = n) grid" using g by simp
  moreover have "initializeQuantumStates rnd n s = Inr (s\<lparr>quantumStates := grid, draws := c\<rparr>)"
    using assms g by (simp add: initializeQuantumStates_def)
  ultimately show ?thesis by blast
qed

lemma initializeParticles_fits:
  assumes "Array_len (cfg_particles (config s)) = Inr m"
  shows "\<exists>ps c. initializeParticles rnd s = Inr (s\<lparr>particles := ps, draws := c\<rparr>) \<and>
           length ps = m \<and>
           list_all (\<lambda>p. length (position p) = length (assets (context_obj s))) ps"
proof -
  let ?f = "\<lambda>c (_ :: unit). newParticle rnd (context_obj s) c"
  obtain ps c where g: "map_rnd ?f (draws s) (replicate m ()) = (ps, c)"
    by (cases "map_rnd ?f (draws s) (replicate m ())")
  have "length ps = m" using map_rnd_length [of ?f "draws s" "replicate m ()"] g by simp
  moreover have "list_all (\<lambda>p. length (position p) = length (assets (context_obj s)))
                   (fst (map_rnd ?f (draws s) (replicate m ())))"
    by (rule map_rnd_all) (simp add: newParticle_length)
  then have "list_all (\<lambda>p. length (position p) = length (assets (context_obj s))) ps"
    using g by simp
  moreover have "initializeParticles rnd s = Inr (s\<lparr>particles := ps, draws := c\<rparr>)"
    using assms g by (simp add: initializeParticles_def)
  ultimately show ?thesis by blast
qed

lemma optimizeLoop_no_best:
  assumes "valid_context (context_obj s)" and "no_best_yet s"
    and "Array_len (cfg_particles (config s)) = Inr m"
    and "cfg_iterations (config s) = Fin (of_nat k)"
  shows "\<exists>l. optimizeLoop rnd s = Some (Inr l) \<and> iteration l = k \<and> \<not> converged l \<and>
           no_best_yet (st l) \<and> context_obj (st l) = context_obj s \<and> config (st l) = config s"
proof -
  let ?n = "length (assets (context_obj s))"
  obtain grid c1 where q: "initializeQuantumStates rnd ?n s = Inr (s\<lparr>quantumStates := grid, draws := c1\<rparr>)"
    "length grid = m" "list_all (\<lambda>row. length row = ?n) grid"
    using initializeQuantumStates_fits [OF assms(3)] by blast
  let ?s1 = "s\<lparr>quantumStates := grid, draws := c1\<rparr>"
  have "Array_len (cfg_particles (config ?s1)) = Inr m" using assms(3) by simp
  then obtain ps c2 where p: "initializeParticles rnd ?s1 = Inr (?s1\<lparr>particles := ps, draws := c2\<rparr>)"
    "length ps = m" "list_all (\<lambda>p. length (position p) = length (assets (context_obj ?s1))) ps"
    using initializeParticles_fits [of ?s1 m rnd] by blast
  let ?s2 = "?s1\<lparr>particles := ps, draws := c2\<rparr>"
  let ?l = "\<lparr>st = ?s2, iteration = 0, converged = False, previousBestFitness = NegInf\<rparr>"
  have "\<exists>l'. whileLoop rnd ?l = Some (Inr l') \<and> iteration l' = k \<and> \<not> converged l' \<and>
           no_best_yet (st l') \<and> context_obj (st l') = context_obj (st ?l) \<and>
           config (st l') = config (st ?l)"
  proof (rule whileLoop_no_best)
    show "valid_context (context_obj (st ?l))" using assms(1) by simp
    show "grid_fits (st ?l) (length (assets (context_obj (st ?l))))"
      using q(2,3) p(2,3) by (simp add: grid_fits_def)
    show "no_best_yet (st ?l)" using assms(2) by (simp add: no_best_yet_def)
    show "cfg_iterations (config (st ?l)) = Fin (of_nat k)" using assms(4) by simp
  qed simp_all
  then show ?thesis using q(1) p(1) by (simp add: optimizeLoop_def)
qed

text \<open>The result built from a store without a global best.\<close>

lemma drawdown_zeros:
  "fst (foldl drawdownStep (Fin 0, peak) (replicate t (Fin 0))) = Fin 0"
  if "peak = NegInf \<or> peak = Fin 0"
  using that
proof (induction t arbitrary: peak)
  case 0
  show ?case by simp
next
  case (Suc t)
  have "drawdownStep (Fin 0, peak) (Fin 0) = (Fin 0, Fin 0)"
    using Suc.prems by (auto simp: drawdownStep_def js_gt_def js_sub_def Let_def)
  then show ?case using Suc.IH [of "Fin 0"] by simp
qed

lemma calculateMaxDrawdown_empty:
  assumes "returns (historicalData ctx) \<noteq> []"
  shows "calculateMaxDrawdown [] ctx = Inr (Fin 0)"
proof -
  obtain row0 rest where r: "returns (historicalData ctx) = row0 # rest"
    using assms by (cases "returns (historicalData ctx)") auto
  have "map_err (\<lambda>timeIndex. fold_err
           (\<lambda>acc wa. case wa of (weight, assetIndex) \<Rightarrow>
              if assetIndex < length (row0 # rest)
              then Inr (js_add acc (js_mul weight (get_num ((row0 # rest) ! assetIndex) timeIndex)))
              else Inl TypeError)
           (Fin 0) (indexed [])) [0..<length row0] =
        Inr (map (\<lambda>_. Fin 0) [0..<length row0])"
    by (rule map_err_total) (simp add: indexed_def)
  then show ?thesis
    using r drawdown_zeros [of NegInf "length row0"]
    by (simp add: calculateMaxDrawdown_def Let_def map_replicate_const)
qed

lemma constructOptimizationResult_no_best:
  assumes "no_best_yet s" "returns (historicalData (context_obj s)) \<noteq> []"
  shows "constructOptimizationResult s =
           Inr \<lparr>allocation = [], expectedReturn = Fin 0, confidence = calculateConfidence s,
                metrics = \<lparr>sharpeRatio = NegInf, metrics_volatility = Fin 0,
                           metrics_maxDrawdown = Fin 0\<rparr>\<rparr>"
  using assms calculateMaxDrawdown_empty [OF assms(2)]
  by (simp add: constructOptimizationResult_def no_best_yet_def calculateExpectedReturn_def
      calculatePortfolioVolatility_def indexed_def Let_def)

lemma optimize_no_best:
  assumes "valid_context (context_obj s)" and "no_best_yet s"
    and "Array_len (cfg_particles (config s)) = Inr m"
    and "cfg_iterations (config s) = Fin (of_nat k)"
  shows "\<exists>res s'. optimize rnd s = Some (Inr (res, s')) \<and> allocation res = [] \<and>
           expectedReturn res = Fin 0 \<and> sharpeRatio (metrics res) = NegInf \<and>
           context_obj s' = context_obj s"
proof -
  obtain l where l: "optimizeLoop rnd s = Some (Inr l)" "no_best_yet (st l)"
    "context_obj (st l) = context_obj s"
    using optimizeLoop_no_best [OF assms, of rnd] by blast
  have "returns (historicalData (context_obj (st l))) \<noteq> []"
    using assms(1) l(3) by (auto simp: valid_context_def Let_def)
  then show ?thesis
    using l constructOptimizationResult_no_best [OF l(2)] by (simp add: optimize_def)
qed

lemma Array_len_nat:
  assumes "m < 2 ^ 32"
  shows "Array_len (Fin (of_nat m)) = Inr m"
proof -
  have "real m < 2 ^ 32" using assms by (metis of_nat_less_iff of_nat_numeral of_nat_power)
  then show ?thesis by simp
qed

section \<open>Termination at the iteration cap\<close>

text \<open>
  Claim C4. With the convergence threshold set to \<^verbatim>\<open>Infinity\<close>, a particle count \<open>m\<close> and
  an iteration cap \<open>k\<close> that are positive integers, and a valid context, the loop of
  \<^verbatim>\<open>optimize\<close> on a freshly constructed optimizer terminates, after exactly \<open>k\<close>
  iterations and without having converged.
\<close>

theorem optimize_runs_all_iterations:
  assumes "valid_context ctx" and "0 < m" and "m < 2 ^ 32" and "0 < k"
  shows "\<exists>l. optimizeLoop rnd
                (enter (constructor \<lparr>arg_particles = Some (Fin (of_nat m)),
                                      arg_iterations = Some (Fin (of_nat k)),
                                      arg_convergenceThreshold = Some PosInf\<rparr>) ctx) =
              Some (Inr l) \<and> iteration l = k \<and> \<not> converged l"
proof -
  let ?s = "enter (constructor \<lparr>arg_particles = Some (Fin (of_nat m)),
                                      arg_iterations = Some (Fin (of_nat k)),
                                      arg_convergenceThreshold = Some PosInf\<rparr>) ctx"
  have "valid_context (context_obj ?s)" using assms(1) by (simp add: enter_def)
  moreover have "no_best_yet ?s" by (simp add: enter_def constructor_def no_best_yet_def)
  moreover have "Array_len (cfg_particles (config ?s)) = Inr m"
    using assms(2) Array_len_nat [OF assms(3)] by (simp add: enter_def constructor_def)
  moreover have "cfg_iterations (config ?s) = Fin (of_nat k)"
    using assms(4) by (simp add: enter_def constructor_def)
  ultimately show ?thesis using optimizeLoop_no_best [of ?s m k rnd] by blast
qed

theorem optimize_runs_all_iterations_witness:
  "valid_context scenario_context \<and> (0::nat) < 10 \<and> (10::nat) < 2 ^ 32 \<and> (0::nat) < 50
   \<and> (\<exists>l. optimizeLoop (\<lambda>_. 1 / 2)
                (enter (constructor \<lparr>arg_particles = Some (Fin 10),
                                      arg_iterations = Some (Fin 50),
                                      arg_convergenceThreshold = Some PosInf\<rparr>) scenario_context) =
              Some (Inr l) \<and> iteration l = 50 \<and> \<not> converged l)"
proof -
  have v: "valid_context scenario_context"
    by (simp add: valid_context_def scenario_context_def)
  show ?thesis
    using v optimize_runs_all_iterations [OF v, of 10 50 "\<lambda>_. 1 / 2"] by simp
qed

section \<open>The returned allocation\<close>

text \<open>
  Claim C1, at the scenario of the specification (two assets, 10 particles, 50
  iterations, threshold \<open>10\<^sup>-\<^sup>8\<close>): whatever the random draws, \<^verbatim>\<open>optimize\<close> returns, and
  the allocation it returns is the empty array, whose elements do not sum to 1.
\<close>

theorem scenario_allocation_is_empty:
  "map_option (map_sum id (allocation \<circ> fst))
     (optimize rnd (enter (constructor scenario_config) scenario_context)) = Some (Inr [])"
proof -
  let ?s = "enter (constructor scenario_config) scenario_context"
  have "valid_context (context_obj ?s)"
    by (simp add: enter_def valid_context_def scenario_context_def)
  moreover have "no_best_yet ?s" by (simp add: enter_def constructor_def no_best_yet_def)
  moreover have "Array_len (cfg_particles (config ?s)) = Inr 10"
    by (simp add: enter_def constructor_def scenario_config_def)
  moreover have "cfg_iterations (config ?s) = Fin (of_nat 50)"
    by (simp add: enter_def constructor_def scenario_config_def)
  ultimately obtain res s' where "optimize rnd ?s = Some (Inr (res, s'))" "allocation res = []"
    using optimize_no_best [of ?s 10 50 rnd] by blast
  then show ?thesis by simp
qed

section \<open>Monotonicity of the global best fitness\<close>

lemma js_gt_trans: "js_gt c b \<Longrightarrow> js_gt b a \<Longrightarrow> js_gt c a"
  by (cases a; cases b; cases c) (simp_all add: js_gt_def)

lemma recordBest_global:
  "snd (snd (recordBest g particle fitness)) = snd g \<or>
   js_gt (snd (snd (recordBest g particle fitness))) (snd g)"
  by (simp add: recordBest_def)

lemma evaluateEach_global:
  assumes "evaluateEach ctx g ps = Inr (ps', g')"
  shows "snd g' = snd g \<or> js_gt (snd g') (snd g)"
  using assms
proof (induction ps arbitrary: g ps' g')
  case Nil
  then show ?case by simp
next
  case (Cons p ps)
  from Cons.prems obtain f where f: "calculateFitness (position p) ctx = Inr f"
    by (auto split: sum.splits)
  obtain p1 g1 where rb: "recordBest g p f = (p1, g1)" by (cases "recordBest g p f")
  from Cons.prems f rb obtain ps1 where rest: "evaluateEach ctx g1 ps = Inr (ps1, g')"
    by (auto split: sum.splits prod.splits)
  have a: "snd g1 = snd g \<or> js_gt (snd g1) (snd g)"
    using recordBest_global [of g p f] rb by simp
  have b: "snd g' = snd g1 \<or> js_gt (snd g') (snd g1)"
    using Cons.IH [OF rest] .
  show ?case using a b js_gt_trans by metis
qed

lemma updateParticles_fields:
  assumes "updateParticles rnd s = Inr s'"
  shows "globalBestFitness s' = globalBestFitness s" "globalBestPosition s' = globalBestPosition s"
    "quantumStates s' = quantumStates s" "config s' = config s" "context_obj s' = context_obj s"
  using assms by (auto simp: updateParticles_def split: sum.splits prod.splits)

lemma evaluateParticles_fields:
  assumes "evaluateParticles s = Inr s'"
  shows "quantumStates s' = quantumStates s" "config s' = config s" "context_obj s' = context_obj s"
  using assms by (auto simp: evaluateParticles_def split: sum.splits prod.splits)

lemma evaluateParticles_global:
  assumes "evaluateParticles s = Inr s'"
  shows "globalBestFitness s' = globalBestFitness s \<or>
         js_gt (globalBestFitness s') (globalBestFitness s)"
proof -
  from assms obtain ps g where e: "evaluateEach (context_obj s)
      (globalBestPosition s, globalBestFitness s) (particles s) = Inr (ps, g)"
    and s': "s' = s\<lparr>particles := ps, globalBestPosition := fst g, globalBestFitness := snd g\<rparr>"
    by (auto simp: evaluateParticles_def split: sum.splits prod.splits)
  show ?thesis using evaluateEach_global [OF e] s' by simp
qed

lemma loopBody_steps:
  assumes "loopBody rnd l = Inr l'"
  obtains s1 where "updateParticles rnd (evolveQuantumStates rnd (st l)) = Inr s1"
    and "evaluateParticles s1 = Inr (st l')" and "iteration l' = Suc (iteration l)"
  using assms by (auto simp: loopBody_def split: sum.splits)

text \<open>
  Claim C3. One iteration of the loop, from any store and with any random draws, leaves
  \<^verbatim>\<open>globalBestFitness\<close> as it was or strictly greater.
\<close>

theorem globalBestFitness_never_decreases:
  assumes "loopBody rnd l = Inr l'"
  shows "globalBestFitness (st l') = globalBestFitness (st l) \<or>
         js_gt (globalBestFitness (st l')) (globalBestFitness (st l))"
proof -
  obtain s1 where up: "updateParticles rnd (evolveQuantumStates rnd (st l)) = Inr s1"
    and ev: "evaluateParticles s1 = Inr (st l')"
    using assms by (rule loopBody_steps)
  have "globalBestFitness s1 = globalBestFitness (st l)"
    using updateParticles_fields(1) [OF up] by simp
  then show ?thesis using evaluateParticles_global [OF ev] by simp
qed

lemma improving_frame_step:
  "map_sum id (\<lambda>l'. (globalBestFitness (st l'), globalBestPosition (st l'), iteration l', converged l'))
     (loopBody (\<lambda>_. 0) improving_frame) = Inr (Fin (1 / 100), [Fin 1], 1, False)"
  by (simp add: loopBody_def improving_frame_def evolveQuantumStates_def evolveState_def
      updateParticles_def updateParticle_def newVelocityAt_def newPositionAt_def quantumStateAt_def
      indexed_def get_num_def calculateQuantumInfluence_def js_sq_def clamp_def js_min_def js_max_def
      normalizeAllocation_def evaluateParticles_def calculateFitness_def calculateExpectedReturn_def
      assetReturnAt_def calculatePortfolioVolatility_def varianceTerm_def penaltyOf_def recordBest_def
      js_gt_def js_sub_def createComplex_def trunc_def someConstraints_def Let_def)

theorem globalBestFitness_never_decreases_witness:
  "\<exists>l'. loopBody (\<lambda>_. 0) improving_frame = Inr l' \<and>
         globalBestFitness (st l') = Fin (1 / 100) \<and>
         globalBestFitness (st improving_frame) = NegInf \<and>
         (globalBestFitness (st l') = globalBestFitness (st improving_frame) \<or>
          js_gt (globalBestFitness (st l')) (globalBestFitness (st improving_frame)))"
proof -
  obtain l' where l': "loopBody (\<lambda>_. 0) improving_frame = Inr l'"
    and g: "globalBestFitness (st l') = Fin (1 / 100)"
    using improving_frame_step by (cases "loopBody (\<lambda>_. 0) improving_frame") auto
  have "globalBestFitness (st improving_frame) = NegInf" by (simp add: improving_frame_def)
  then show ?thesis using l' g globalBestFitness_never_decreases [OF l'] by blast
qed

section \<open>The frame of a call\<close>

text \<open>An invariant of the loop body holds when the loop returns.\<close>

lemma whileLoop_invariant:
  assumes "whileLoop rnd l = Some (Inr l')" and "I rnd l"
    and step: "\<And>rnd l l1. I rnd l \<Longrightarrow> loopBody rnd l = Inr l1 \<Longrightarrow> I rnd l1"
  shows "I rnd l'"
proof -
  have "I rnd l \<longrightarrow> (\<forall>f'. (Inr l' :: error + frame) = Inr f' \<longrightarrow> I rnd f')"
  proof (rule whileLoop.raw_induct
      [where P = "\<lambda>r f (y :: error + frame). I r f \<longrightarrow> (\<forall>f'. y = Inr f' \<longrightarrow> I r f')",
       OF _ assms(1)])
    fix loop :: "(nat \<Rightarrow> real) \<Rightarrow> frame \<Rightarrow> (error + frame) option" and r f
      and y :: "error + frame"
    assume ih: "\<And>r f y. loop r f = Some y \<Longrightarrow> I r f \<longrightarrow> (\<forall>f'. y = Inr f' \<longrightarrow> I r f')"
      and body: "(if loopCondition f
                  then case loopBody r f of Inl e \<Rightarrow> Some (Inl e) | Inr l' \<Rightarrow> loop r l'
                  else Some (Inr f)) = Some y"
    show "I r f \<longrightarrow> (\<forall>f'. y = Inr f' \<longrightarrow> I r f')"
    proof (intro impI allI)
      fix f' assume i: "I r f" and y: "y = Inr f'"
      show "I r f'"
      proof (cases "loopCondition f")
        case False
        then show ?thesis using body i y by simp
      next
        case True
        then obtain f1 where b: "loopBody r f = Inr f1" and rec: "loop r f1 = Some y"
          using body y by (auto split: sum.splits)
        have "I r f1" using step [OF i b] .
        then show ?thesis using ih [OF rec] y by simp
      qed
    qed
  qed
  then show ?thesis using assms(2) by simp
qed

lemma loopBody_frame:
  assumes "loopBody rnd l = Inr l1"
  shows "context_obj (st l1) = context_obj (st l)" "config (st l1) = config (st l)"
    "quantumStates (st l1) = quantumStates (evolveQuantumStates rnd (st l))"
proof -
  obtain s1 where up: "updateParticles rnd (evolveQuantumStates rnd (st l)) = Inr s1"
    and ev: "evaluateParticles s1 = Inr (st l1)"
    using assms by (rule loopBody_steps)
  show "context_obj (st l1) = context_obj (st l)"
    using updateParticles_fields(5) [OF up] evaluateParticles_fields(3) [OF ev] by simp
  show "config (st l1) = config (st l)"
    using updateParticles_fields(4) [OF up] evaluateParticles_fields(2) [OF ev] by simp
  show "quantumStates (st l1) = quantumStates (evolveQuantumStates rnd (st l))"
    using updateParticles_fields(3) [OF up] evaluateParticles_fields(1) [OF ev] by simp
qed

lemma initialize_frame:
  assumes "initializeQuantumStates rnd n s = Inr s1" and "initializeParticles rnd s1 = Inr s2"
  shows "context_obj s2 = context_obj s" "config s2 = config s"
    "quantumStates s2 = quantumStates s1"
  using assms
  by (auto simp: initializeQuantumStates_def initializeParticles_def split: sum.splits prod.splits)

lemma optimize_steps:
  assumes "optimize rnd s = Some (Inr (res, s'))"
  obtains s1 s2 l where "initializeQuantumStates rnd (length (assets (context_obj s))) s = Inr s1"
    and "initializeParticles rnd s1 = Inr s2"
    and "whileLoop rnd \<lparr>st = s2, iteration = 0, converged = False, previousBestFitness = NegInf\<rparr> =
           Some (Inr l)"
    and "st l = s'" and "constructOptimizationResult s' = Inr res"
  using assms
  by (auto simp: optimize_def optimizeLoop_def split: option.splits sum.splits)

text \<open>
  Claim C9. A call of \<^verbatim>\<open>optimize\<close> that returns leaves the context object it was given
  (assets, constraints, market regime and historical data) as it was, and the optimizer's
  configuration too: only the particles, the quantum states, the global best and the
  number of random draws may differ.
\<close>

theorem optimize_leaves_context:
  assumes "optimize rnd s = Some (Inr (res, s'))"
  shows "context_obj s' = context_obj s \<and> config s' = config s"
proof -
  obtain s1 s2 l where i1: "initializeQuantumStates rnd (length (assets (context_obj s))) s = Inr s1"
    and i2: "initializeParticles rnd s1 = Inr s2"
    and w: "whileLoop rnd \<lparr>st = s2, iteration = 0, converged = False, previousBestFitness = NegInf\<rparr> =
           Some (Inr l)"
    and l: "st l = s'"
    using assms by (rule optimize_steps)
  let ?I = "\<lambda>(r :: nat \<Rightarrow> real) l. context_obj (st l) = context_obj s \<and> config (st l) = config s"
  have "?I rnd l"
  proof (rule whileLoop_invariant [OF w, where I = ?I])
    show "?I rnd \<lparr>st = s2, iteration = 0, converged = False, previousBestFitness = NegInf\<rparr>"
      using initialize_frame(1,2) [OF i1 i2] by simp
    show "?I r l1" if "?I r l0" "loopBody r l0 = Inr l1" for r l0 l1
      using that loopBody_frame(1,2) [OF that(2)] by simp
  qed
  then show ?thesis using l by simp
qed

theorem optimize_leaves_context_witness:
  "\<exists>res s'. optimize (\<lambda>_. 1 / 2) (enter (constructor scenario_config) scenario_context) =
              Some (Inr (res, s')) \<and>
            context_obj s' = scenario_context \<and>
            config s' = \<lparr>cfg_particles = Fin 10, cfg_iterations = Fin 50,
                         cfg_convergenceThreshold = Fin (1 / 10 ^ 8)\<rparr>"
proof -
  let ?s = "enter (constructor scenario_config) scenario_context"
  have "valid_context (context_obj ?s)"
    by (simp add: enter_def valid_context_def scenario_context_def)
  moreover have "no_best_yet ?s" by (simp add: enter_def constructor_def no_best_yet_def)
  moreover have "Array_len (cfg_particles (config ?s)) = Inr 10"
    by (simp add: enter_def constructor_def scenario_config_def)
  moreover have "cfg_iterations (config ?s) = Fin (of_nat 50)"
    by (simp add: enter_def constructor_def scenario_config_def)
  ultimately obtain res s' where run: "optimize (\<lambda>_. 1 / 2) ?s = Some (Inr (res, s'))"
    using optimize_no_best [of ?s 10 50 "\<lambda>_. 1 / 2"] by blast
  have "context_obj s' = context_obj ?s \<and> config s' = config ?s"
    using optimize_leaves_context [OF run] .
  then have "context_obj s' = scenario_context \<and>
            config s' = \<lparr>cfg_particles = Fin 10, cfg_iterations = Fin 50,
                         cfg_convergenceThreshold = Fin (1 / 10 ^ 8)\<rparr>"
    by (simp add: enter_def constructor_def scenario_config_def)
  then show ?thesis using run by blast
qed

section \<open>Sequential and snapshot evaluation\<close>

lemma evaluateEach_snapshot:
  "evaluateEach ctx g ps =
     (case map_err (\<lambda>particle. calculateFitness (position particle) ctx) ps of
        Inl e \<Rightarrow> Inl e
      | Inr fs \<Rightarrow> Inr (foldBest g (zip ps fs)))"
proof (induction ps arbitrary: g)
  case Nil
  show ?case by simp
next
  case (Cons p ps)
  show ?case
  proof (cases "calculateFitness (position p) ctx")
    case (Inl e)
    then show ?thesis by simp
  next
    case (Inr f)
    obtain p' g' where rb: "recordBest g p f = (p', g')" by (cases "recordBest g p f")
    show ?thesis
      using Inr rb Cons.IH [of g']
      by (cases "map_err (\<lambda>particle. calculateFitness (position particle) ctx) ps")
         (auto split: prod.splits)
  qed
qed

lemma js_gt_irrefl [simp]: "\<not> js_gt a a"
  by (cases a) (simp_all add: js_gt_def)

lemma js_gt_total: "a \<noteq> NaN \<Longrightarrow> b \<noteq> NaN \<Longrightarrow> \<not> js_gt a b \<Longrightarrow> \<not> js_gt b a \<Longrightarrow> a = b"
  by (cases a; cases b) (simp_all add: js_gt_def)

lemma js_gt_not_NaN: "js_gt a b \<Longrightarrow> a \<noteq> NaN \<and> b \<noteq> NaN"
  by (cases a; cases b) (simp_all add: js_gt_def)

lemma foldBest_particles:
  "fst (foldBest g pfs) = map (\<lambda>(particle, fitness). personalBest_snapshot particle fitness) pfs"
proof (induction pfs arbitrary: g)
  case Nil
  show ?case by simp
next
  case (Cons pf pfs)
  obtain p f where pf: "pf = (p, f)" by (cases pf)
  obtain p1 g1 where rb: "recordBest g p f = (p1, g1)" by (cases "recordBest g p f")
  obtain ps2 g2 where fb: "foldBest g1 pfs = (ps2, g2)" by (cases "foldBest g1 pfs")
  have "p1 = personalBest_snapshot p f"
    using rb by (auto simp: recordBest_def personalBest_snapshot_def split: if_splits)
  then show ?case using pf rb fb Cons.IH [of g1] by simp
qed

lemma foldBest_snoc:
  "snd (foldBest g (pfs @ [(p, f)])) = snd (recordBest (snd (foldBest g pfs)) p f)"
proof (induction pfs arbitrary: g)
  case Nil
  obtain p1 g1 where "recordBest g p f = (p1, g1)" by (cases "recordBest g p f")
  then show ?case by simp
next
  case (Cons pf pfs)
  obtain q fq where pf: "pf = (q, fq)" by (cases pf)
  obtain p1 g1 where rb: "recordBest g q fq = (p1, g1)" by (cases "recordBest g q fq")
  obtain ps2 g2 where fb: "foldBest g1 pfs = (ps2, g2)" by (cases "foldBest g1 pfs")
  obtain ps3 g3 where fb': "foldBest g1 (pfs @ [(p, f)]) = (ps3, g3)"
    by (cases "foldBest g1 (pfs @ [(p, f)])")
  show ?case using pf rb fb fb' Cons.IH [of g1] by simp
qed

lemma foldBest_global: "globalBest_snapshot g pfs (snd (foldBest g pfs))"
proof (induction pfs rule: rev_induct)
  case Nil
  show ?case by (simp add: globalBest_snapshot_def contenders_def)
next
  case (snoc pf pfs)
  obtain p f where pf: "pf = (p, f)" by (cases pf)
  let ?cs = "contenders (snd g) pfs"
  let ?g1 = "snd (foldBest g pfs)"
  let ?cand = "js_gt f (bestFitness p) \<and> js_gt f (snd g)"
  have cs': "contenders (snd g) (pfs @ [pf]) = ?cs @ (if ?cand then [(p, f)] else [])"
    using pf by (simp add: contenders_def)
  have new: "snd (foldBest g (pfs @ [pf])) =
               (if js_gt f (bestFitness p) \<and> js_gt f (snd ?g1) then (position p, f) else ?g1)"
    using pf by (simp add: foldBest_snoc recordBest_def)
  show ?case
  proof (cases "?cs = []")
    case True
    then have "?g1 = g" using snoc.IH by (simp add: globalBest_snapshot_def Let_def)
    then show ?thesis using True cs' new
      by (auto simp: globalBest_snapshot_def Let_def)
  next
    case False
    then obtain q fq where top: "(q, fq) \<in> set ?cs" "?g1 = (position q, fq)"
      "\<forall>(other, f') \<in> set ?cs. \<not> js_gt f' fq"
      using snoc.IH by (auto simp: globalBest_snapshot_def Let_def list_ex_iff list_all_iff)
    have above: "js_gt fq (snd g)" using top(1) by (auto simp: contenders_def)
    show ?thesis
    proof (cases "js_gt f (bestFitness p) \<and> js_gt f fq")
      case True
      then have cand: ?cand using above js_gt_trans by blast
      have "\<not> js_gt f' f" if "(other, f') \<in> set (?cs @ [(p, f)])" for other f'
      proof (cases "(other, f') \<in> set ?cs")
        case True
        then have "\<not> js_gt f' fq" using top(3) by auto
        moreover have "js_gt f fq" using \<open>js_gt f (bestFitness p) \<and> js_gt f fq\<close> by simp
        ultimately show ?thesis using js_gt_trans [of f' f fq] by blast
      next
        case False
        then have "f' = f" using that by simp
        then show ?thesis by simp
      qed
      then have "\<forall>(other, f') \<in> set (?cs @ [(p, f)]). \<not> js_gt f' f" by blast
      then show ?thesis using True cand cs' new top(2)
        by (auto simp: globalBest_snapshot_def Let_def list_ex_iff list_all_iff)
    next
      case False
      then have keep: "snd (foldBest g (pfs @ [pf])) = (position q, fq)"
        using new top(2) by auto
      have "\<forall>(other, f') \<in> set (contenders (snd g) (pfs @ [pf])). \<not> js_gt f' fq"
        using top(3) False cs' by (auto split: if_splits)
      moreover have "(q, fq) \<in> set (contenders (snd g) (pfs @ [pf]))"
        using top(1) cs' by simp
      ultimately show ?thesis using keep
        by (auto simp: globalBest_snapshot_def Let_def list_ex_iff list_all_iff)
    qed
  qed
qed

lemma globalBest_snapshot_fitness:
  assumes "globalBest_snapshot g pfs g1" "globalBest_snapshot g pfs g2"
  shows "snd g1 = snd g2"
proof (cases "contenders (snd g) pfs = []")
  case True
  then show ?thesis using assms by (simp add: globalBest_snapshot_def Let_def)
next
  case False
  let ?cs = "contenders (snd g) pfs"
  obtain q1 f1 where a: "(q1, f1) \<in> set ?cs" "g1 = (position q1, f1)"
    "\<forall>(other, f') \<in> set ?cs. \<not> js_gt f' f1"
    using assms(1) False by (auto simp: globalBest_snapshot_def Let_def list_ex_iff list_all_iff)
  obtain q2 f2 where b: "(q2, f2) \<in> set ?cs" "g2 = (position q2, f2)"
    "\<forall>(other, f') \<in> set ?cs. \<not> js_gt f' f2"
    using assms(2) False by (auto simp: globalBest_snapshot_def Let_def list_ex_iff list_all_iff)
  have "f1 \<noteq> NaN" "f2 \<noteq> NaN"
    using a(1) b(1) js_gt_not_NaN by (auto simp: contenders_def)
  moreover have "\<not> js_gt f2 f1" "\<not> js_gt f1 f2" using a b by auto
  ultimately have "f1 = f2" using js_gt_total by blast
  then show ?thesis using a(2) b(2) by simp
qed

lemma evaluateParticles_foldBest:
  "evaluateParticles s =
     (case map_err (\<lambda>particle. calculateFitness (position particle) (context_obj s)) (particles s) of
        Inl e \<Rightarrow> Inl e
      | Inr fs \<Rightarrow>
          Inr (s\<lparr>particles := fst (foldBest (globalBestPosition s, globalBestFitness s) (zip (particles s) fs)),
                 globalBestPosition := fst (snd (foldBest (globalBestPosition s, globalBestFitness s) (zip (particles s) fs))),
                 globalBestFitness := snd (snd (foldBest (globalBestPosition s, globalBestFitness s) (zip (particles s) fs)))\<rparr>))"
  unfolding evaluateParticles_def evaluateEach_snapshot
  by (simp split: sum.splits prod.splits)

text \<open>
  Claim C7. What the sequential evaluation pass leaves is an outcome of the snapshot
  evaluation; and every outcome of the snapshot evaluation agrees with it in the
  exception raised, in all personal bests, in the global best fitness and in every other
  field, so that the two can differ only in which of several contenders of equal, maximal
  fitness gives the global best position.
\<close>

theorem evaluateParticles_is_snapshot:
  "snapshot_outcome s (evaluateParticles s) \<and>
   (snapshot_outcome s outcome \<longrightarrow> without_position outcome = without_position (evaluateParticles s))"
proof (cases "map_err (\<lambda>particle. calculateFitness (position particle) (context_obj s)) (particles s)")
  case (Inl e)
  then show ?thesis
    by (simp add: snapshot_outcome_def evaluateParticles_foldBest)
next
  case (Inr fs)
  let ?g = "(globalBestPosition s, globalBestFitness s)"
  let ?fb = "foldBest ?g (zip (particles s) fs)"
  have code: "evaluateParticles s =
      Inr (s\<lparr>particles := fst ?fb, globalBestPosition := fst (snd ?fb),
             globalBestFitness := snd (snd ?fb)\<rparr>)"
    using Inr by (simp add: evaluateParticles_foldBest)
  have glob: "globalBest_snapshot ?g (zip (particles s) fs) (snd ?fb)"
    by (rule foldBest_global)
  have first: "snapshot_outcome s (evaluateParticles s)"
    using Inr code glob by (simp add: snapshot_outcome_def foldBest_particles)
  have second: "without_position outcome = without_position (evaluateParticles s)"
    if "snapshot_outcome s outcome"
  proof -
    from that Inr obtain s' where o: "outcome = Inr s'"
      and s': "s' = s\<lparr>particles := map (\<lambda>(particle, fitness). personalBest_snapshot particle fitness)
                                      (zip (particles s) fs),
                       globalBestPosition := globalBestPosition s',
                       globalBestFitness := globalBestFitness s'\<rparr>"
      and g': "globalBest_snapshot ?g (zip (particles s) fs) (globalBestPosition s', globalBestFitness s')"
      by (auto simp: snapshot_outcome_def split: sum.splits)
    have "globalBestFitness s' = snd (snd ?fb)"
      using globalBest_snapshot_fitness [OF g' glob] by simp
    have gf: "globalBestFitness s' = snd (snd ?fb)" by fact
    have eq: "s'\<lparr>globalBestPosition := []\<rparr> =
                s\<lparr>particles := map (\<lambda>(particle, fitness). personalBest_snapshot particle fitness)
                                      (zip (particles s) fs),
                  globalBestPosition := [],
                  globalBestFitness := globalBestFitness s'\<rparr>"
      by (subst s') simp
    show ?thesis
      using o code gf eq by (simp add: without_position_def foldBest_particles)
  qed
  show ?thesis using first second by blast
qed

lemma tie_fitness:
  "calculateFitness [Fin 1, Fin 0] tie_context = Inr (Fin (1 / 100))"
  "calculateFitness [Fin 0, Fin 1] tie_context = Inr (Fin (1 / 100))"
  by (simp_all add: calculateFitness_def calculateExpectedReturn_def assetReturnAt_def indexed_def
      calculatePortfolioVolatility_def varianceTerm_def get_num_def penaltyOf_def js_gt_def
      js_sub_def tie_context_def someConstraints_def Let_def upt_rec)

lemma tie_code:
  "evaluateParticles tie_store = Inr (tie_outcome [Fin 1, Fin 0])"
  by (simp add: evaluateParticles_def tie_store_def tie_outcome_def tie_particle_def tie_fitness
      recordBest_def js_gt_def)

theorem evaluateParticles_is_snapshot_witness:
  "snapshot_outcome tie_store (Inr (tie_outcome [Fin 0, Fin 1])) \<and>
   evaluateParticles tie_store = Inr (tie_outcome [Fin 1, Fin 0]) \<and>
   snapshot_outcome tie_store (evaluateParticles tie_store) \<and>
   without_position (Inr (tie_outcome [Fin 0, Fin 1])) = without_position (evaluateParticles tie_store)"
proof -
  have h: "snapshot_outcome tie_store (Inr (tie_outcome [Fin 0, Fin 1]))"
    by (simp add: snapshot_outcome_def tie_store_def tie_outcome_def tie_particle_def tie_fitness
        personalBest_snapshot_def globalBest_snapshot_def contenders_def js_gt_def Let_def)
  show ?thesis
    using h tie_code evaluateParticles_is_snapshot [of tie_store "Inr (tie_outcome [Fin 0, Fin 1])"]
    by simp
qed

end
